theory Spec2Isabelle
  imports Main "HOL-Library.AList"
begin

section \<open>Data model\<close>

subsection \<open>Syntax trees\<close>

text \<open>
  The parse tree is produced by the ANTLR-generated Nimble parser. The datatypes below
  have one constructor per context class that the listeners handle, with the children
  the handlers read: \<open>ctx.expr()\<close>, \<open>ctx.expr(0)\<close>, \<open>ctx.expr(1)\<close>, \<open>ctx.op.text\<close>,
  \<open>ctx.ID().getText()\<close>, \<open>ctx.TYPE().getText()\<close>, \<open>ctx.block(0)\<close>, \<open>ctx.statement()\<close>,
  \<open>ctx.funcCall()\<close>, \<open>ctx.body()\<close>, \<open>ctx.main()\<close>. Token texts are strings. A function
  call is its name and its argument expressions.
\<close>

datatype expr =
    Parens expr
  | FuncCallExpr string "expr list"
  | Neg string expr
  | MulDiv string expr expr
  | AddSub string expr expr
  | Compare string expr expr
  | Variable string
  | StringLiteral string
  | IntLiteral string
  | BoolLiteral string

datatype statement =
    Assignment string expr
  | While expr "statement list"
  | If_stmt expr "statement list" "statement list option"
  | Print expr
  | Return "expr option"
  | FuncCallStmt string "expr list"

datatype varDec = VarDec string string "expr option"

datatype body = Body "varDec list" "statement list"

datatype funcDef = FuncDef string "(string \<times> string) list" "string option" body

datatype script = Script "funcDef list" body

text \<open>The node an error entry points at.\<close>

datatype ctx =
    ExprCtx expr
  | StatementCtx statement
  | VarDecCtx varDec
  | FuncDefCtx funcDef
  | FuncCallCtx string "expr list"

subsection \<open>Primitive types, symbols and scopes\<close>

text \<open>
  Modelled from the spec: the module \<open>semantics/symboltable.py\<close> (\<open>PrimitiveType\<close>,
  \<open>Symbol\<close>, \<open>Scope\<close>) is not among the sources. The spec gives the enumeration
  {Int, Bool, String, Void, ERROR}; the members carry the suffix \<open>_t\<close> here.
\<close>

datatype PrimitiveType = Int_t | Bool_t | String_t | Void_t | ERROR_t

datatype Category =
    UNSUPPORTED_LANGUAGE_FEATURE
  | DUPLICATE_NAME
  | UNDEFINED_NAME
  | ASSIGN_TO_WRONG_TYPE
  | INVALID_RETURN
  | CONDITION_NOT_BOOL
  | UNPRINTABLE_EXPRESSION
  | INVALID_NEGATION
  | INVALID_BINARY_OP

text \<open>
  Modelled from the spec: the module \<open>semantics/errorlog.py\<close> is not among the sources.
  An entry has a category, the offending node and a message; \<open>add\<close> appends and never
  deduplicates; \<open>total_entries\<close> is the number of entries. The message is an f-string
  over the \<open>__str__\<close> of classes that are not among the sources, so an entry keeps the
  node and the category only.
\<close>

datatype entry = Entry ctx Category

type_synonym ErrorLog = "entry list"

definition add :: "ErrorLog \<Rightarrow> ctx \<Rightarrow> Category \<Rightarrow> ErrorLog" where
  "add error_log c cat = error_log @ [Entry c cat]"

definition total_entries :: "ErrorLog \<Rightarrow> nat" where
  "total_entries error_log = length error_log"

fun category_of :: "entry \<Rightarrow> Category" where
  "category_of (Entry c cat) = cat"

text \<open>The exceptions the modelled code can raise.\<close>

datatype error =
    AttributeError
  | KeyError
  | NimbleSemanticErrors ErrorLog

text \<open>
  Modelled from the spec: \<open>PrimitiveType[name]\<close>, the lookup of a member by the text of a
  type token. A text that names no member raises \<open>KeyError\<close>.
\<close>

definition PrimitiveType_getitem :: "string \<Rightarrow> error + PrimitiveType" where
  "PrimitiveType_getitem s =
     (if s = ''Int'' then Inr Int_t
      else if s = ''Bool'' then Inr Bool_t
      else if s = ''String'' then Inr String_t
      else if s = ''Void'' then Inr Void_t
      else if s = ''ERROR'' then Inr ERROR_t
      else Inl KeyError)"

text \<open>
  Modelled from the spec: the truth value Python gives a member of the enumeration in
  \<open>if not _type\<close>. Members of an enumeration are all true.
\<close>

definition truthy :: "PrimitiveType \<Rightarrow> bool" where
  "truthy t = True"

text \<open>
  Modelled from the spec: a symbol is a declared name with its type. A scope has a name
  tag, a declared return type, a reference to its enclosing scope (\<open>None\<close> for the
  outermost) and the mapping from declared names to symbols. Scope objects are shared
  and mutated in place (the \<open>scope\<close> annotation of a node and the listener's
  \<open>current_scope\<close> are the same object), so scopes live in an arena, in creation order,
  and a reference is an index into it.
\<close>

record Symbol =
  sym_name :: string
  sym_type :: PrimitiveType

record Scope =
  scope_name :: string
  return_type :: PrimitiveType
  enclosing_scope :: "nat option"
  symbols :: "(string \<times> Symbol) list"

type_synonym arena = "Scope list"

definition new_Scope :: "arena \<Rightarrow> string \<Rightarrow> PrimitiveType \<Rightarrow> nat option \<Rightarrow> arena \<times> nat" where
  "new_Scope A n rt enc =
     (A @ [\<lparr>scope_name = n, return_type = rt, enclosing_scope = enc, symbols = []\<rparr>], length A)"

definition resolve_locally :: "Scope \<Rightarrow> string \<Rightarrow> Symbol option" where
  "resolve_locally s n = map_of (symbols s) n"

definition define_sym :: "Scope \<Rightarrow> string \<Rightarrow> PrimitiveType \<Rightarrow> Scope" where
  "define_sym s n t = s\<lparr>symbols := AList.update n \<lparr>sym_name = n, sym_type = t\<rparr> (symbols s)\<rparr>"

text \<open>
  \<open>resolve\<close> searches the scope, then its enclosing chain outward. A scope is created
  after its enclosing scope, so a link points to a smaller index; the search follows
  such links only, which makes it terminate.
\<close>

function resolve :: "arena \<Rightarrow> nat \<Rightarrow> string \<Rightarrow> Symbol option" where
  "resolve A r n =
     (case resolve_locally (A ! r) n of
        Some s \<Rightarrow> Some s
      | None \<Rightarrow>
         (case enclosing_scope (A ! r) of
            None \<Rightarrow> None
          | Some e \<Rightarrow> if e < r then resolve A e n else None))"
  by pat_completeness auto
termination
  by (relation "measure (\<lambda>(A, r, n). r)") auto

declare resolve.simps [simp del]

section \<open>Pass 1: DefineScopesAndSymbols\<close>

text \<open>
  The listener's fields, the arena of the scopes it has created, and the \<open>scope\<close>
  attributes it has patched onto the script node and the main node (a tree has one of
  each).
\<close>

record pass1 =
  error_log :: ErrorLog
  current_scope :: "nat option"
  scopes :: arena
  script_scope :: "nat option"
  main_scope :: "nat option"

definition DefineScopesAndSymbols :: "ErrorLog \<Rightarrow> pass1" where
  "DefineScopesAndSymbols errors =
     \<lparr>error_log = errors, current_scope = None, scopes = [],
      script_scope = None, main_scope = None\<rparr>"

definition enterScript1 :: "pass1 \<Rightarrow> pass1" where
  "enterScript1 st =
     (let (A, global_scope) = new_Scope (scopes st) ''$global'' Void_t None
      in st\<lparr>scopes := A, script_scope := Some global_scope,
            current_scope := Some global_scope\<rparr>)"

definition enterFuncDef1 :: "pass1 \<Rightarrow> funcDef \<Rightarrow> pass1" where
  "enterFuncDef1 st fd =
     st\<lparr>error_log := add (error_log st) (FuncDefCtx fd) UNSUPPORTED_LANGUAGE_FEATURE\<rparr>"

definition enterFuncCall1 :: "pass1 \<Rightarrow> string \<Rightarrow> expr list \<Rightarrow> pass1" where
  "enterFuncCall1 st f args =
     st\<lparr>error_log := add (error_log st) (FuncCallCtx f args) UNSUPPORTED_LANGUAGE_FEATURE\<rparr>"

definition enterMain1 :: "pass1 \<Rightarrow> pass1" where
  "enterMain1 st =
     (let (A, m) = new_Scope (scopes st) ''$main'' Void_t (current_scope st)
      in st\<lparr>scopes := A, main_scope := Some m, current_scope := Some m\<rparr>)"

definition exitMain1 :: "pass1 \<Rightarrow> error + pass1" where
  "exitMain1 st =
     (case current_scope st of
        None \<Rightarrow> Inl AttributeError
      | Some r \<Rightarrow> Inr (st\<lparr>current_scope := enclosing_scope (scopes st ! r)\<rparr>))"

text \<open>
  \<open>duplicate_name\<close> returns the updated listener and the boolean. A symbol object is
  true in \<open>if already_declared\<close>; \<open>None\<close> is false.
\<close>

definition duplicate_name :: "pass1 \<Rightarrow> ctx \<Rightarrow> string \<Rightarrow> error + (pass1 \<times> bool)" where
  "duplicate_name st c n =
     (case current_scope st of
        None \<Rightarrow> Inl AttributeError
      | Some r \<Rightarrow>
         (case resolve_locally (scopes st ! r) n of
            Some already_declared \<Rightarrow>
              Inr (st\<lparr>error_log := add (error_log st) c DUPLICATE_NAME\<rparr>, True)
          | None \<Rightarrow> Inr (st, False)))"

definition exitVarDec1 :: "pass1 \<Rightarrow> varDec \<Rightarrow> error + pass1" where
  "exitVarDec1 st vd =
     (case vd of VarDec n ty init \<Rightarrow>
        (case duplicate_name st (VarDecCtx vd) n of
           Inl e \<Rightarrow> Inl e
         | Inr (st', dup) \<Rightarrow>
            if \<not> dup then
              (case PrimitiveType_getitem ty of
                 Inl e \<Rightarrow> Inl e
               | Inr t \<Rightarrow>
                  (case current_scope st' of
                     None \<Rightarrow> Inl AttributeError
                   | Some r \<Rightarrow>
                      Inr (st'\<lparr>scopes := (scopes st')[r := define_sym (scopes st' ! r) n t]\<rparr>)))
            else Inr st'))"

section \<open>Pass 2: InferTypesAndCheckConstraints\<close>

text \<open>
  The listener's fields. The arena of pass 1 is read, never changed. The \<open>type\<close>
  attribute a handler patches onto an expression node is the type the handler returns
  here; a handler reads the \<open>type\<close> of a child as an argument.
\<close>

record pass2 =
  error_log2 :: ErrorLog
  current_scope2 :: "nat option"

definition InferTypesAndCheckConstraints :: "ErrorLog \<Rightarrow> pass2" where
  "InferTypesAndCheckConstraints errors = \<lparr>error_log2 = errors, current_scope2 = None\<rparr>"

definition log2 :: "pass2 \<Rightarrow> ctx \<Rightarrow> Category \<Rightarrow> pass2" where
  "log2 st c cat = st\<lparr>error_log2 := add (error_log2 st) c cat\<rparr>"

definition enterScript2 :: "arena \<Rightarrow> pass2 \<Rightarrow> error + pass2" where
  "enterScript2 A st =
     (case current_scope2 st of
        None \<Rightarrow> Inl AttributeError
      | Some r \<Rightarrow> Inr (st\<lparr>current_scope2 := enclosing_scope (A ! r)\<rparr>))"

text \<open>\<open>ctx.scope\<close> of the main node is the annotation of pass 1; absent, the read raises.\<close>

definition enterMain2 :: "nat option \<Rightarrow> pass2 \<Rightarrow> error + pass2" where
  "enterMain2 ctx_scope st =
     (case ctx_scope of
        None \<Rightarrow> Inl AttributeError
      | Some r \<Rightarrow> Inr (st\<lparr>current_scope2 := Some r\<rparr>))"

definition exitMain2 :: "arena \<Rightarrow> pass2 \<Rightarrow> error + pass2" where
  "exitMain2 A st =
     (case current_scope2 st of
        None \<Rightarrow> Inl AttributeError
      | Some r \<Rightarrow> Inr (st\<lparr>current_scope2 := enclosing_scope (A ! r)\<rparr>))"

definition exitReturn :: "arena \<Rightarrow> pass2 \<Rightarrow> ctx \<Rightarrow> PrimitiveType option \<Rightarrow> error + pass2" where
  "exitReturn A st c expr_type =
     (case current_scope2 st of
        None \<Rightarrow> Inl AttributeError
      | Some r \<Rightarrow>
         (let required_type = return_type (A ! r);
              returned_type = (case expr_type of Some t \<Rightarrow> t | None \<Rightarrow> Void_t)
          in if required_type \<noteq> returned_type then Inr (log2 st c INVALID_RETURN)
             else Inr st))"

definition log_invalid_assign :: "pass2 \<Rightarrow> ctx \<Rightarrow> pass2" where
  "log_invalid_assign st c = log2 st c ASSIGN_TO_WRONG_TYPE"

definition exitVarDec2 :: "pass2 \<Rightarrow> ctx \<Rightarrow> string \<Rightarrow> PrimitiveType option \<Rightarrow> error + pass2" where
  "exitVarDec2 st c ty expr_type =
     (case PrimitiveType_getitem ty of
        Inl e \<Rightarrow> Inl e
      | Inr t \<Rightarrow>
         (case expr_type of
            Some et \<Rightarrow> if t \<noteq> et then Inr (log_invalid_assign st c) else Inr st
          | None \<Rightarrow> Inr st))"

definition exitAssignment :: "arena \<Rightarrow> pass2 \<Rightarrow> ctx \<Rightarrow> string \<Rightarrow> PrimitiveType \<Rightarrow> error + pass2" where
  "exitAssignment A st c n expr_type =
     (case current_scope2 st of
        None \<Rightarrow> Inl AttributeError
      | Some r \<Rightarrow>
         (case resolve A r n of
            None \<Rightarrow> Inl AttributeError
          | Some symb \<Rightarrow>
             (let t = sym_type symb
              in if \<not> truthy t then Inr (log2 st c UNDEFINED_NAME)
                 else if t \<noteq> expr_type then Inr (log_invalid_assign st c)
                 else Inr st)))"

definition check_boolean_condition :: "pass2 \<Rightarrow> ctx \<Rightarrow> PrimitiveType \<Rightarrow> pass2" where
  "check_boolean_condition st c expr_type =
     (if expr_type \<noteq> Bool_t then log2 st c CONDITION_NOT_BOOL else st)"

definition exitWhile :: "pass2 \<Rightarrow> ctx \<Rightarrow> PrimitiveType \<Rightarrow> pass2" where
  "exitWhile st c expr_type = check_boolean_condition st c expr_type"

definition exitIf :: "pass2 \<Rightarrow> ctx \<Rightarrow> PrimitiveType \<Rightarrow> pass2" where
  "exitIf st c expr_type = check_boolean_condition st c expr_type"

definition exitPrint :: "pass2 \<Rightarrow> ctx \<Rightarrow> PrimitiveType \<Rightarrow> pass2" where
  "exitPrint st c expr_type =
     (if expr_type = ERROR_t then log2 st c UNPRINTABLE_EXPRESSION else st)"

text \<open>No handler gives a \<open>funcCall\<close> node a \<open>type\<close>, so reading it raises.\<close>

definition exitFuncCallStmt :: "pass2 \<Rightarrow> error + pass2" where
  "exitFuncCallStmt st = Inl AttributeError"

definition exitFuncCallExpr :: "pass2 \<Rightarrow> error + (pass2 \<times> PrimitiveType)" where
  "exitFuncCallExpr st = Inl AttributeError"

definition exitIntLiteral :: "pass2 \<Rightarrow> pass2 \<times> PrimitiveType" where
  "exitIntLiteral st = (st, Int_t)"

definition exitStringLiteral :: "pass2 \<Rightarrow> pass2 \<times> PrimitiveType" where
  "exitStringLiteral st = (st, String_t)"

definition exitBoolLiteral :: "pass2 \<Rightarrow> pass2 \<times> PrimitiveType" where
  "exitBoolLiteral st = (st, Bool_t)"

definition exitNeg :: "pass2 \<Rightarrow> ctx \<Rightarrow> string \<Rightarrow> PrimitiveType \<Rightarrow> pass2 \<times> PrimitiveType" where
  "exitNeg st c op expr_type =
     (if op = ''-'' \<and> expr_type = Int_t then (st, Int_t)
      else if op = ''!'' \<and> expr_type = Bool_t then (st, Bool_t)
      else (log2 st c INVALID_NEGATION, ERROR_t))"

definition exitParens :: "pass2 \<Rightarrow> PrimitiveType \<Rightarrow> pass2 \<times> PrimitiveType" where
  "exitParens st expr_type = (st, expr_type)"

definition binary_on_ints ::
  "pass2 \<Rightarrow> ctx \<Rightarrow> PrimitiveType \<Rightarrow> PrimitiveType \<Rightarrow> PrimitiveType \<Rightarrow> pass2 \<times> PrimitiveType" where
  "binary_on_ints st c result_type t0 t1 =
     (if t0 = Int_t \<and> t1 = Int_t then (st, result_type)
      else (log2 st c INVALID_BINARY_OP, ERROR_t))"

definition exitMulDiv :: "pass2 \<Rightarrow> ctx \<Rightarrow> PrimitiveType \<Rightarrow> PrimitiveType \<Rightarrow> pass2 \<times> PrimitiveType" where
  "exitMulDiv st c t0 t1 = binary_on_ints st c Int_t t0 t1"

definition exitAddSub ::
  "pass2 \<Rightarrow> ctx \<Rightarrow> string \<Rightarrow> PrimitiveType \<Rightarrow> PrimitiveType \<Rightarrow> pass2 \<times> PrimitiveType" where
  "exitAddSub st c op t0 t1 =
     (if op = ''+'' \<and> t0 = String_t \<and> t1 = String_t then (st, String_t)
      else binary_on_ints st c Int_t t0 t1)"

definition exitCompare :: "pass2 \<Rightarrow> ctx \<Rightarrow> PrimitiveType \<Rightarrow> PrimitiveType \<Rightarrow> pass2 \<times> PrimitiveType" where
  "exitCompare st c t0 t1 = binary_on_ints st c Bool_t t0 t1"

definition exitVariable :: "arena \<Rightarrow> pass2 \<Rightarrow> ctx \<Rightarrow> string \<Rightarrow> error + (pass2 \<times> PrimitiveType)" where
  "exitVariable A st c n =
     (case current_scope2 st of
        None \<Rightarrow> Inl AttributeError
      | Some r \<Rightarrow>
         (case resolve A r n of
            None \<Rightarrow> Inl AttributeError
          | Some symb \<Rightarrow>
             (let t = sym_type symb
              in if \<not> truthy t then Inr (log2 st c UNDEFINED_NAME, ERROR_t)
                 else Inr (st, t))))"

section \<open>The tree walks\<close>

text \<open>
  \<open>ParseTreeWalker.walk\<close> calls the listener's enter method of a node, walks the
  children from left to right, then calls the exit method. A method the listener does
  not define does nothing. An exception ends the walk.
\<close>

subsection \<open>Walk of pass 1\<close>

fun walk1_expr :: "pass1 \<Rightarrow> expr \<Rightarrow> pass1"
  and walk1_exprs :: "pass1 \<Rightarrow> expr list \<Rightarrow> pass1" where
  "walk1_expr st (Parens e) = walk1_expr st e"
| "walk1_expr st (FuncCallExpr f args) = walk1_exprs (enterFuncCall1 st f args) args"
| "walk1_expr st (Neg op e) = walk1_expr st e"
| "walk1_expr st (MulDiv op e0 e1) = walk1_expr (walk1_expr st e0) e1"
| "walk1_expr st (AddSub op e0 e1) = walk1_expr (walk1_expr st e0) e1"
| "walk1_expr st (Compare op e0 e1) = walk1_expr (walk1_expr st e0) e1"
| "walk1_expr st (Variable n) = st"
| "walk1_expr st (StringLiteral s) = st"
| "walk1_expr st (IntLiteral s) = st"
| "walk1_expr st (BoolLiteral s) = st"
| "walk1_exprs st [] = st"
| "walk1_exprs st (e # es) = walk1_exprs (walk1_expr st e) es"

fun walk1_statement :: "pass1 \<Rightarrow> statement \<Rightarrow> pass1"
  and walk1_block :: "pass1 \<Rightarrow> statement list \<Rightarrow> pass1" where
  "walk1_statement st (Assignment n e) = walk1_expr st e"
| "walk1_statement st (While e b) = walk1_block (walk1_expr st e) b"
| "walk1_statement st (If_stmt e b0 b1) =
     (let st' = walk1_block (walk1_expr st e) b0
      in case b1 of None \<Rightarrow> st' | Some b \<Rightarrow> walk1_block st' b)"
| "walk1_statement st (Print e) = walk1_expr st e"
| "walk1_statement st (Return eo) = (case eo of None \<Rightarrow> st | Some e \<Rightarrow> walk1_expr st e)"
| "walk1_statement st (FuncCallStmt f args) = walk1_exprs (enterFuncCall1 st f args) args"
| "walk1_block st [] = st"
| "walk1_block st (s # ss) = walk1_block (walk1_statement st s) ss"

fun walk1_varDec :: "pass1 \<Rightarrow> varDec \<Rightarrow> error + pass1" where
  "walk1_varDec st (VarDec n ty init) =
     exitVarDec1 (case init of None \<Rightarrow> st | Some e \<Rightarrow> walk1_expr st e) (VarDec n ty init)"

fun walk1_varBlock :: "pass1 \<Rightarrow> varDec list \<Rightarrow> error + pass1" where
  "walk1_varBlock st [] = Inr st"
| "walk1_varBlock st (vd # vds) =
     (case walk1_varDec st vd of Inl e \<Rightarrow> Inl e | Inr st' \<Rightarrow> walk1_varBlock st' vds)"

fun walk1_body :: "pass1 \<Rightarrow> body \<Rightarrow> error + pass1" where
  "walk1_body st (Body vds b) =
     (case walk1_varBlock st vds of Inl e \<Rightarrow> Inl e | Inr st' \<Rightarrow> Inr (walk1_block st' b))"

fun walk1_funcDef :: "pass1 \<Rightarrow> funcDef \<Rightarrow> error + pass1" where
  "walk1_funcDef st (FuncDef f ps rt bd) = walk1_body (enterFuncDef1 st (FuncDef f ps rt bd)) bd"

fun walk1_funcDefs :: "pass1 \<Rightarrow> funcDef list \<Rightarrow> error + pass1" where
  "walk1_funcDefs st [] = Inr st"
| "walk1_funcDefs st (fd # fds) =
     (case walk1_funcDef st fd of Inl e \<Rightarrow> Inl e | Inr st' \<Rightarrow> walk1_funcDefs st' fds)"

fun walk1_main :: "pass1 \<Rightarrow> body \<Rightarrow> error + pass1" where
  "walk1_main st bd =
     (case walk1_body (enterMain1 st) bd of Inl e \<Rightarrow> Inl e | Inr st' \<Rightarrow> exitMain1 st')"

fun walk1_script :: "pass1 \<Rightarrow> script \<Rightarrow> error + pass1" where
  "walk1_script st (Script fds m) =
     (case walk1_funcDefs (enterScript1 st) fds of
        Inl e \<Rightarrow> Inl e
      | Inr st' \<Rightarrow> walk1_main st' m)"

subsection \<open>Walk of pass 2\<close>

text \<open>The walk of an expression returns the listener and the node's \<open>type\<close>.\<close>

fun walk2_expr :: "arena \<Rightarrow> pass2 \<Rightarrow> expr \<Rightarrow> error + (pass2 \<times> PrimitiveType)"
  and walk2_exprs :: "arena \<Rightarrow> pass2 \<Rightarrow> expr list \<Rightarrow> error + pass2" where
  "walk2_expr A st (Parens e) =
     (case walk2_expr A st e of Inl x \<Rightarrow> Inl x | Inr (st', t) \<Rightarrow> Inr (exitParens st' t))"
| "walk2_expr A st (FuncCallExpr f args) =
     (case walk2_exprs A st args of Inl x \<Rightarrow> Inl x | Inr st' \<Rightarrow> exitFuncCallExpr st')"
| "walk2_expr A st (Neg op e) =
     (case walk2_expr A st e of
        Inl x \<Rightarrow> Inl x
      | Inr (st', t) \<Rightarrow> Inr (exitNeg st' (ExprCtx (Neg op e)) op t))"
| "walk2_expr A st (MulDiv op e0 e1) =
     (case walk2_expr A st e0 of
        Inl x \<Rightarrow> Inl x
      | Inr (st0, t0) \<Rightarrow>
         (case walk2_expr A st0 e1 of
            Inl x \<Rightarrow> Inl x
          | Inr (st1, t1) \<Rightarrow> Inr (exitMulDiv st1 (ExprCtx (MulDiv op e0 e1)) t0 t1)))"
| "walk2_expr A st (AddSub op e0 e1) =
     (case walk2_expr A st e0 of
        Inl x \<Rightarrow> Inl x
      | Inr (st0, t0) \<Rightarrow>
         (case walk2_expr A st0 e1 of
            Inl x \<Rightarrow> Inl x
          | Inr (st1, t1) \<Rightarrow> Inr (exitAddSub st1 (ExprCtx (AddSub op e0 e1)) op t0 t1)))"
| "walk2_expr A st (Compare op e0 e1) =
     (case walk2_expr A st e0 of
        Inl x \<Rightarrow> Inl x
      | Inr (st0, t0) \<Rightarrow>
         (case walk2_expr A st0 e1 of
            Inl x \<Rightarrow> Inl x
          | Inr (st1, t1) \<Rightarrow> Inr (exitCompare st1 (ExprCtx (Compare op e0 e1)) t0 t1)))"
| "walk2_expr A st (Variable n) = exitVariable A st (ExprCtx (Variable n)) n"
| "walk2_expr A st (StringLiteral s) = Inr (exitStringLiteral st)"
| "walk2_expr A st (IntLiteral s) = Inr (exitIntLiteral st)"
| "walk2_expr A st (BoolLiteral s) = Inr (exitBoolLiteral st)"
| "walk2_exprs A st [] = Inr st"
| "walk2_exprs A st (e # es) =
     (case walk2_expr A st e of Inl x \<Rightarrow> Inl x | Inr (st', t) \<Rightarrow> walk2_exprs A st' es)"

fun walk2_statement :: "arena \<Rightarrow> pass2 \<Rightarrow> statement \<Rightarrow> error + pass2"
  and walk2_block :: "arena \<Rightarrow> pass2 \<Rightarrow> statement list \<Rightarrow> error + pass2" where
  "walk2_statement A st (Assignment n e) =
     (case walk2_expr A st e of
        Inl x \<Rightarrow> Inl x
      | Inr (st', t) \<Rightarrow> exitAssignment A st' (StatementCtx (Assignment n e)) n t)"
| "walk2_statement A st (While e b) =
     (case walk2_expr A st e of
        Inl x \<Rightarrow> Inl x
      | Inr (st', t) \<Rightarrow>
         (case walk2_block A st' b of
            Inl x \<Rightarrow> Inl x
          | Inr st'' \<Rightarrow> Inr (exitWhile st'' (StatementCtx (While e b)) t)))"
| "walk2_statement A st (If_stmt e b0 b1) =
     (case walk2_expr A st e of
        Inl x \<Rightarrow> Inl x
      | Inr (st', t) \<Rightarrow>
         (case walk2_block A st' b0 of
            Inl x \<Rightarrow> Inl x
          | Inr st0 \<Rightarrow>
             (case (case b1 of None \<Rightarrow> Inr st0 | Some b \<Rightarrow> walk2_block A st0 b) of
                Inl x \<Rightarrow> Inl x
              | Inr st1 \<Rightarrow> Inr (exitIf st1 (StatementCtx (If_stmt e b0 b1)) t))))"
| "walk2_statement A st (Print e) =
     (case walk2_expr A st e of
        Inl x \<Rightarrow> Inl x
      | Inr (st', t) \<Rightarrow> Inr (exitPrint st' (StatementCtx (Print e)) t))"
| "walk2_statement A st (Return eo) =
     (case eo of
        None \<Rightarrow> exitReturn A st (StatementCtx (Return eo)) None
      | Some e \<Rightarrow>
         (case walk2_expr A st e of
            Inl x \<Rightarrow> Inl x
          | Inr (st', t) \<Rightarrow> exitReturn A st' (StatementCtx (Return eo)) (Some t)))"
| "walk2_statement A st (FuncCallStmt f args) =
     (case walk2_exprs A st args of Inl x \<Rightarrow> Inl x | Inr st' \<Rightarrow> exitFuncCallStmt st')"
| "walk2_block A st [] = Inr st"
| "walk2_block A st (s # ss) =
     (case walk2_statement A st s of Inl x \<Rightarrow> Inl x | Inr st' \<Rightarrow> walk2_block A st' ss)"

fun walk2_varDec :: "arena \<Rightarrow> pass2 \<Rightarrow> varDec \<Rightarrow> error + pass2" where
  "walk2_varDec A st (VarDec n ty init) =
     (case init of
        None \<Rightarrow> exitVarDec2 st (VarDecCtx (VarDec n ty init)) ty None
      | Some e \<Rightarrow>
         (case walk2_expr A st e of
            Inl x \<Rightarrow> Inl x
          | Inr (st', t) \<Rightarrow> exitVarDec2 st' (VarDecCtx (VarDec n ty init)) ty (Some t)))"

fun walk2_varBlock :: "arena \<Rightarrow> pass2 \<Rightarrow> varDec list \<Rightarrow> error + pass2" where
  "walk2_varBlock A st [] = Inr st"
| "walk2_varBlock A st (vd # vds) =
     (case walk2_varDec A st vd of Inl x \<Rightarrow> Inl x | Inr st' \<Rightarrow> walk2_varBlock A st' vds)"

fun walk2_body :: "arena \<Rightarrow> pass2 \<Rightarrow> body \<Rightarrow> error + pass2" where
  "walk2_body A st (Body vds b) =
     (case walk2_varBlock A st vds of Inl x \<Rightarrow> Inl x | Inr st' \<Rightarrow> walk2_block A st' b)"

fun walk2_funcDefs :: "arena \<Rightarrow> pass2 \<Rightarrow> funcDef list \<Rightarrow> error + pass2" where
  "walk2_funcDefs A st [] = Inr st"
| "walk2_funcDefs A st (FuncDef f ps rt bd # fds) =
     (case walk2_body A st bd of Inl x \<Rightarrow> Inl x | Inr st' \<Rightarrow> walk2_funcDefs A st' fds)"

text \<open>\<open>ms\<close> is the \<open>scope\<close> attribute pass 1 left on the main node.\<close>

fun walk2_main :: "arena \<Rightarrow> nat option \<Rightarrow> pass2 \<Rightarrow> body \<Rightarrow> error + pass2" where
  "walk2_main A ms st bd =
     (case enterMain2 ms st of
        Inl x \<Rightarrow> Inl x
      | Inr st' \<Rightarrow>
         (case walk2_body A st' bd of Inl x \<Rightarrow> Inl x | Inr st'' \<Rightarrow> exitMain2 A st''))"

fun walk2_script :: "arena \<Rightarrow> nat option \<Rightarrow> pass2 \<Rightarrow> script \<Rightarrow> error + pass2" where
  "walk2_script A ms st (Script fds m) =
     (case enterScript2 A st of
        Inl x \<Rightarrow> Inl x
      | Inr st' \<Rightarrow>
         (case walk2_funcDefs A st' fds of
            Inl x \<Rightarrow> Inl x
          | Inr st'' \<Rightarrow> walk2_main A ms st'' m))"

subsection \<open>The entry point\<close>

text \<open>
  Both listeners get the same \<open>ErrorLog\<close> object. The value returned is the tree with
  what pass 1 has patched onto it.
\<close>

definition do_semantic_analysis :: "script \<Rightarrow> error + (script \<times> pass1)" where
  "do_semantic_analysis tree =
     (let errors = []
      in case walk1_script (DefineScopesAndSymbols errors) tree of
           Inl x \<Rightarrow> Inl x
         | Inr s1 \<Rightarrow>
            (case walk2_script (scopes s1) (main_scope s1)
                    (InferTypesAndCheckConstraints (error_log s1)) tree of
               Inl x \<Rightarrow> Inl x
             | Inr s2 \<Rightarrow>
                if total_entries (error_log2 s2) \<noteq> 0
                then Inl (NimbleSemanticErrors (error_log2 s2))
                else Inr (tree, s1)))"

section \<open>Code generation: MIPSGenerator\<close>

subsection \<open>Text\<close>

text \<open>
  Python's \<open>str\<close> of an integer, as the f-string of \<open>unique_label\<close> and \<open>format\<close>
  render it: decimal digits, a minus sign before a negative number.
\<close>

fun str_nat :: "nat \<Rightarrow> string" where
  "str_nat n =
     (if n < 10 then [char_of (48 + n)]
      else str_nat (n div 10) @ [char_of (48 + n mod 10)])"

declare str_nat.simps [simp del]

definition str_int :: "int \<Rightarrow> string" where
  "str_int i = (if i < 0 then ''-'' @ str_nat (nat (- i)) else str_nat (nat i))"

text \<open>\<open>sep.join(xs)\<close>.\<close>

fun join :: "string \<Rightarrow> string list \<Rightarrow> string" where
  "join sep [] = []"
| "join sep [x] = x"
| "join sep (x # y # ys) = x @ sep @ join sep (y # ys)"

text \<open>The text of a template: its lines, each ended by a newline.\<close>

definition newline :: string where
  "newline = [CHR 0x0A]"

definition text_lines :: "string list \<Rightarrow> string" where
  "text_lines ls = concat (map (\<lambda>l. l @ newline) ls)"

subsection \<open>The templates of templates.py\<close>

definition script_template :: "string \<Rightarrow> string \<Rightarrow> string" where
  \<open>script_template string_literals_text main_text =
     text_lines
      [''.data'',
       [],
       ''true_string: .asciiz "true"'',
       ''false_string: .asciiz "false"'',
       ''    '',
       string_literals_text,
       [],
       ''.text'',
       [],
       ''true_false_string:'',
       ''beq    $t0 $zero choose_false'',
       ''la     $a0 true_string'',
       ''j      end_true_false_string'',
       ''choose_false:'',
       ''la     $a0 false_string'',
       ''end_true_false_string:'',
       ''jr     $ra'',
       [],
       ''main: '',
       [],
       main_text,
       [],
       ''halt:'',
       [],
       ''li $v0 10'',
       ''syscall'']\<close>

definition add_sub :: "string \<Rightarrow> string \<Rightarrow> string \<Rightarrow> string" where
  "add_sub operation expr0 expr1 =
     text_lines
      [expr0,
       ''sw     $t0 0($sp) '',
       ''addiu  $sp $sp -4 '',
       expr1,
       ''lw     $s1 4($sp) '',
       operation @ ''    $t0 $s1 $t0 '',
       ''addiu  $sp $sp 4'']"

definition if_template :: "string \<Rightarrow> string \<Rightarrow> string \<Rightarrow> string" where
  "if_template condition true_block endif_label =
     text_lines
      [condition,
       ''li     $t1 0'',
       ''beq    $t0 $t1 '' @ endif_label,
       true_block,
       endif_label @ '':'']"

definition print_int_or_string :: "string \<Rightarrow> int \<Rightarrow> string" where
  "print_int_or_string expr service_code =
     text_lines
      [expr,
       ''move   $a0 $t0'',
       ''li     $v0 '' @ str_int service_code,
       ''syscall'']"

definition print_bool :: "string \<Rightarrow> string" where
  "print_bool expr =
     text_lines
      [expr,
       ''jal    true_false_string'',
       ''li     $v0 4'',
       ''syscall'']"

subsection \<open>The generator and its handlers\<close>

text \<open>
  \<open>string_literals\<close> is a Python dict: an association list in insertion order, where
  assigning to a key that is present replaces its value in place.
\<close>

record MIPSGenerator =
  label_index :: int
  string_literals :: "(string \<times> string) list"
  gen_current_scope :: "nat option"

definition MIPSGenerator_init :: MIPSGenerator where
  "MIPSGenerator_init = \<lparr>label_index = - 1, string_literals = [], gen_current_scope = None\<rparr>"

definition unique_label :: "MIPSGenerator \<Rightarrow> string \<Rightarrow> MIPSGenerator \<times> string" where
  "unique_label g base =
     (let g' = g\<lparr>label_index := label_index g + 1\<rparr>
      in (g', base @ ''_'' @ str_int (label_index g')))"

text \<open>
  A handler reads the \<open>mips\<close> attribute of a child as an argument: \<open>None\<close> when no handler
  has set it, and the read raises. What a handler returns is the \<open>mips\<close> it sets.
\<close>

definition get_mips :: "string option \<Rightarrow> error + string" where
  "get_mips m = (case m of None \<Rightarrow> Inl AttributeError | Some x \<Rightarrow> Inr x)"

definition enterMain_mips :: "nat option \<Rightarrow> MIPSGenerator \<Rightarrow> error + MIPSGenerator" where
  "enterMain_mips ctx_scope g =
     (case ctx_scope of
        None \<Rightarrow> Inl AttributeError
      | Some r \<Rightarrow> Inr (g\<lparr>gen_current_scope := Some r\<rparr>))"

definition string_literal_lines :: "MIPSGenerator \<Rightarrow> string list" where
  "string_literal_lines g =
     map (\<lambda>(label, string). label @ '': .asciiz '' @ string) (string_literals g)"

definition exitScript_mips :: "MIPSGenerator \<Rightarrow> string option \<Rightarrow> error + string" where
  "exitScript_mips g main_mips =
     (case get_mips main_mips of
        Inl x \<Rightarrow> Inl x
      | Inr m \<Rightarrow> Inr (script_template (join newline (string_literal_lines g)) m))"

definition exitMain_mips :: "string option \<Rightarrow> error + string" where
  "exitMain_mips body_mips = get_mips body_mips"

fun all_mips :: "string option list \<Rightarrow> error + string list" where
  "all_mips [] = Inr []"
| "all_mips (m # ms) =
     (case get_mips m of
        Inl x \<Rightarrow> Inl x
      | Inr y \<Rightarrow> (case all_mips ms of Inl x \<Rightarrow> Inl x | Inr ys \<Rightarrow> Inr (y # ys)))"

definition exitBlock_mips :: "string option list \<Rightarrow> error + string" where
  "exitBlock_mips statement_mips =
     (case all_mips statement_mips of Inl x \<Rightarrow> Inl x | Inr ms \<Rightarrow> Inr (join newline ms))"

definition exitBoolLiteral_mips :: "string \<Rightarrow> string" where
  "exitBoolLiteral_mips bool_text =
     (let v = (if bool_text = ''true'' then 1 else 0)
      in ''li     $t0 '' @ str_int v)"

definition exitIntLiteral_mips :: "string \<Rightarrow> string" where
  "exitIntLiteral_mips int_text = ''li     $t0 '' @ int_text"

definition exitStringLiteral_mips :: "MIPSGenerator \<Rightarrow> string \<Rightarrow> MIPSGenerator \<times> string" where
  "exitStringLiteral_mips g text =
     (let (g', label) = unique_label g ''string'';
          g'' = g'\<lparr>string_literals := AList.update label text (string_literals g')\<rparr>
      in (g'', ''la     $t0 '' @ label))"

definition exitPrint_mips :: "PrimitiveType \<Rightarrow> string option \<Rightarrow> error + string" where
  "exitPrint_mips expr_type expr_mips =
     (if expr_type = Bool_t then
        (case get_mips expr_mips of Inl x \<Rightarrow> Inl x | Inr m \<Rightarrow> Inr (print_bool m))
      else
        (case get_mips expr_mips of
           Inl x \<Rightarrow> Inl x
         | Inr m \<Rightarrow> Inr (print_int_or_string m (if expr_type = Int_t then 1 else 4))))"

definition exitBody_mips :: "string option \<Rightarrow> error + string" where
  "exitBody_mips block_mips = get_mips block_mips"

definition exitAddSub_mips :: "string \<Rightarrow> string option \<Rightarrow> string option \<Rightarrow> error + string" where
  "exitAddSub_mips op expr0_mips expr1_mips =
     (let operation = (if op = ''+'' then ''add'' else ''sub'')
      in case get_mips expr0_mips of
           Inl x \<Rightarrow> Inl x
         | Inr m0 \<Rightarrow>
            (case get_mips expr1_mips of
               Inl x \<Rightarrow> Inl x
             | Inr m1 \<Rightarrow> Inr (add_sub operation m0 m1)))"

definition exitIf_mips ::
  "MIPSGenerator \<Rightarrow> string option \<Rightarrow> string option \<Rightarrow> error + (MIPSGenerator \<times> string)" where
  "exitIf_mips g expr_mips block0_mips =
     (case get_mips expr_mips of
        Inl x \<Rightarrow> Inl x
      | Inr condition \<Rightarrow>
         (case get_mips block0_mips of
            Inl x \<Rightarrow> Inl x
          | Inr true_block \<Rightarrow>
             (let (g', endif_label) = unique_label g ''endif''
              in Inr (g', if_template condition true_block endif_label))))"

text \<open>
  The handlers whose body is \<open>pass\<close>: \<open>exitVarBlock\<close>, \<open>exitVarDec\<close>, \<open>exitAssignment\<close>,
  \<open>exitWhile\<close>, \<open>exitNeg\<close>, \<open>exitParens\<close>, \<open>exitCompare\<close>, \<open>exitVariable\<close>, \<open>exitMulDiv\<close>.
  They leave the node without a \<open>mips\<close> attribute.
\<close>

definition exitAssignment_mips :: "string option" where
  "exitAssignment_mips = None"

definition exitWhile_mips :: "string option" where
  "exitWhile_mips = None"

definition exitNeg_mips :: "string option" where
  "exitNeg_mips = None"

definition exitParens_mips :: "string option" where
  "exitParens_mips = None"

definition exitCompare_mips :: "string option" where
  "exitCompare_mips = None"

definition exitVariable_mips :: "string option" where
  "exitVariable_mips = None"

definition exitMulDiv_mips :: "string option" where
  "exitMulDiv_mips = None"

subsection \<open>Walk of the generator\<close>

text \<open>
  The walk of a node returns the generator and the node's \<open>mips\<close> attribute (\<open>None\<close>
  when no handler has set it). \<open>ty\<close> is the \<open>type\<close> attribute the analysis has left on
  an expression node.
\<close>

fun walk_mips_expr :: "MIPSGenerator \<Rightarrow> expr \<Rightarrow> error + (MIPSGenerator \<times> string option)"
  and walk_mips_exprs :: "MIPSGenerator \<Rightarrow> expr list \<Rightarrow> error + MIPSGenerator" where
  "walk_mips_expr g (Parens e) =
     (case walk_mips_expr g e of Inl x \<Rightarrow> Inl x | Inr (g', m) \<Rightarrow> Inr (g', exitParens_mips))"
| "walk_mips_expr g (FuncCallExpr f args) =
     (case walk_mips_exprs g args of Inl x \<Rightarrow> Inl x | Inr g' \<Rightarrow> Inr (g', None))"
| "walk_mips_expr g (Neg op e) =
     (case walk_mips_expr g e of Inl x \<Rightarrow> Inl x | Inr (g', m) \<Rightarrow> Inr (g', exitNeg_mips))"
| "walk_mips_expr g (MulDiv op e0 e1) =
     (case walk_mips_expr g e0 of
        Inl x \<Rightarrow> Inl x
      | Inr (g0, m0) \<Rightarrow>
         (case walk_mips_expr g0 e1 of
            Inl x \<Rightarrow> Inl x
          | Inr (g1, m1) \<Rightarrow> Inr (g1, exitMulDiv_mips)))"
| "walk_mips_expr g (AddSub op e0 e1) =
     (case walk_mips_expr g e0 of
        Inl x \<Rightarrow> Inl x
      | Inr (g0, m0) \<Rightarrow>
         (case walk_mips_expr g0 e1 of
            Inl x \<Rightarrow> Inl x
          | Inr (g1, m1) \<Rightarrow>
             (case exitAddSub_mips op m0 m1 of
                Inl x \<Rightarrow> Inl x
              | Inr m \<Rightarrow> Inr (g1, Some m))))"
| "walk_mips_expr g (Compare op e0 e1) =
     (case walk_mips_expr g e0 of
        Inl x \<Rightarrow> Inl x
      | Inr (g0, m0) \<Rightarrow>
         (case walk_mips_expr g0 e1 of
            Inl x \<Rightarrow> Inl x
          | Inr (g1, m1) \<Rightarrow> Inr (g1, exitCompare_mips)))"
| "walk_mips_expr g (Variable n) = Inr (g, exitVariable_mips)"
| "walk_mips_expr g (StringLiteral s) =
     (let (g', m) = exitStringLiteral_mips g s in Inr (g', Some m))"
| "walk_mips_expr g (IntLiteral s) = Inr (g, Some (exitIntLiteral_mips s))"
| "walk_mips_expr g (BoolLiteral s) = Inr (g, Some (exitBoolLiteral_mips s))"
| "walk_mips_exprs g [] = Inr g"
| "walk_mips_exprs g (e # es) =
     (case walk_mips_expr g e of Inl x \<Rightarrow> Inl x | Inr (g', m) \<Rightarrow> walk_mips_exprs g' es)"

fun walk_mips_statement ::
    "(expr \<Rightarrow> PrimitiveType) \<Rightarrow> MIPSGenerator \<Rightarrow> statement \<Rightarrow>
     error + (MIPSGenerator \<times> string option)"
  and walk_mips_statements ::
    "(expr \<Rightarrow> PrimitiveType) \<Rightarrow> MIPSGenerator \<Rightarrow> statement list \<Rightarrow>
     error + (MIPSGenerator \<times> string option list)" where
  "walk_mips_statement ty g (Assignment n e) =
     (case walk_mips_expr g e of
        Inl x \<Rightarrow> Inl x
      | Inr (g', m) \<Rightarrow> Inr (g', exitAssignment_mips))"
| "walk_mips_statement ty g (While e b) =
     (case walk_mips_expr g e of
        Inl x \<Rightarrow> Inl x
      | Inr (g', m) \<Rightarrow>
         (case walk_mips_statements ty g' b of
            Inl x \<Rightarrow> Inl x
          | Inr (g'', ms) \<Rightarrow>
             (case exitBlock_mips ms of
                Inl x \<Rightarrow> Inl x
              | Inr bm \<Rightarrow> Inr (g'', exitWhile_mips))))"
| "walk_mips_statement ty g (If_stmt e b0 b1) =
     (case walk_mips_expr g e of
        Inl x \<Rightarrow> Inl x
      | Inr (g', m) \<Rightarrow>
         (case walk_mips_statements ty g' b0 of
            Inl x \<Rightarrow> Inl x
          | Inr (g0, ms0) \<Rightarrow>
             (case exitBlock_mips ms0 of
                Inl x \<Rightarrow> Inl x
              | Inr bm0 \<Rightarrow>
                 (case b1 of
                    None \<Rightarrow>
                      (case exitIf_mips g0 m (Some bm0) of
                         Inl x \<Rightarrow> Inl x
                       | Inr (g2, im) \<Rightarrow> Inr (g2, Some im))
                  | Some b \<Rightarrow>
                      (case walk_mips_statements ty g0 b of
                         Inl x \<Rightarrow> Inl x
                       | Inr (g1, ms1) \<Rightarrow>
                          (case exitBlock_mips ms1 of
                             Inl x \<Rightarrow> Inl x
                           | Inr bm1 \<Rightarrow>
                              (case exitIf_mips g1 m (Some bm0) of
                                 Inl x \<Rightarrow> Inl x
                               | Inr (g2, im) \<Rightarrow> Inr (g2, Some im))))))))"
| "walk_mips_statement ty g (Print e) =
     (case walk_mips_expr g e of
        Inl x \<Rightarrow> Inl x
      | Inr (g', m) \<Rightarrow>
         (case exitPrint_mips (ty e) m of Inl x \<Rightarrow> Inl x | Inr pm \<Rightarrow> Inr (g', Some pm)))"
| "walk_mips_statement ty g (Return eo) =
     (case eo of
        None \<Rightarrow> Inr (g, None)
      | Some e \<Rightarrow>
         (case walk_mips_expr g e of Inl x \<Rightarrow> Inl x | Inr (g', m) \<Rightarrow> Inr (g', None)))"
| "walk_mips_statement ty g (FuncCallStmt f args) =
     (case walk_mips_exprs g args of Inl x \<Rightarrow> Inl x | Inr g' \<Rightarrow> Inr (g', None))"
| "walk_mips_statements ty g [] = Inr (g, [])"
| "walk_mips_statements ty g (s # ss) =
     (case walk_mips_statement ty g s of
        Inl x \<Rightarrow> Inl x
      | Inr (g', m) \<Rightarrow>
         (case walk_mips_statements ty g' ss of
            Inl x \<Rightarrow> Inl x
          | Inr (g'', ms) \<Rightarrow> Inr (g'', m # ms)))"

fun walk_mips_varBlock :: "MIPSGenerator \<Rightarrow> varDec list \<Rightarrow> error + MIPSGenerator" where
  "walk_mips_varBlock g [] = Inr g"
| "walk_mips_varBlock g (VarDec n t init # vds) =
     (case init of
        None \<Rightarrow> walk_mips_varBlock g vds
      | Some e \<Rightarrow>
         (case walk_mips_expr g e of
            Inl x \<Rightarrow> Inl x
          | Inr (g', m) \<Rightarrow> walk_mips_varBlock g' vds))"

fun walk_mips_body ::
  "(expr \<Rightarrow> PrimitiveType) \<Rightarrow> MIPSGenerator \<Rightarrow> body \<Rightarrow> error + (MIPSGenerator \<times> string)" where
  "walk_mips_body ty g (Body vds b) =
     (case walk_mips_varBlock g vds of
        Inl x \<Rightarrow> Inl x
      | Inr g' \<Rightarrow>
         (case walk_mips_statements ty g' b of
            Inl x \<Rightarrow> Inl x
          | Inr (g'', ms) \<Rightarrow>
             (case exitBlock_mips ms of
                Inl x \<Rightarrow> Inl x
              | Inr bm \<Rightarrow>
                 (case exitBody_mips (Some bm) of
                    Inl x \<Rightarrow> Inl x
                  | Inr m \<Rightarrow> Inr (g'', m)))))"

fun walk_mips_funcDefs ::
  "(expr \<Rightarrow> PrimitiveType) \<Rightarrow> MIPSGenerator \<Rightarrow> funcDef list \<Rightarrow> error + MIPSGenerator" where
  "walk_mips_funcDefs ty g [] = Inr g"
| "walk_mips_funcDefs ty g (FuncDef f ps rt bd # fds) =
     (case walk_mips_body ty g bd of
        Inl x \<Rightarrow> Inl x
      | Inr (g', m) \<Rightarrow> walk_mips_funcDefs ty g' fds)"

text \<open>
  The walk of the whole tree, as the driver starts it: \<open>ms\<close> is the \<open>scope\<close> attribute of
  the main node; the result is \<open>tree.mips\<close>.
\<close>

fun walk_mips_script ::
  "(expr \<Rightarrow> PrimitiveType) \<Rightarrow> nat option \<Rightarrow> MIPSGenerator \<Rightarrow> script \<Rightarrow>
   error + (MIPSGenerator \<times> string)" where
  "walk_mips_script ty ms g (Script fds bd) =
     (case walk_mips_funcDefs ty g fds of
        Inl x \<Rightarrow> Inl x
      | Inr g0 \<Rightarrow>
         (case enterMain_mips ms g0 of
            Inl x \<Rightarrow> Inl x
          | Inr g1 \<Rightarrow>
             (case walk_mips_body ty g1 bd of
                Inl x \<Rightarrow> Inl x
              | Inr (g2, bm) \<Rightarrow>
                 (case exitMain_mips (Some bm) of
                    Inl x \<Rightarrow> Inl x
                  | Inr mm \<Rightarrow>
                     (case exitScript_mips g2 (Some mm) of
                        Inl x \<Rightarrow> Inl x
                      | Inr sm \<Rightarrow> Inr (g2, sm))))))"

text \<open>A sequence of calls of \<open>unique_label\<close>, one for each base, and the labels returned.\<close>

fun unique_labels :: "MIPSGenerator \<Rightarrow> string list \<Rightarrow> MIPSGenerator \<times> string list" where
  "unique_labels g [] = (g, [])"
| "unique_labels g (base # bases) =
     (let (g', l) = unique_label g base;
          (g'', ls) = unique_labels g' bases
      in (g'', l # ls))"

section \<open>Vocabulary of the properties\<close>

text \<open>
  A label of a program text. The templates put a label definition at the start of a line,
  ended by a colon, and no other line of a generated program has a colon before the text
  of a string literal: the lines of a text are its parts between newlines, and a line
  with a colon defines the label before its first colon.
\<close>

fun split_lines :: "string \<Rightarrow> string list" where
  "split_lines [] = [[]]"
| "split_lines (c # cs) =
     (if c = CHR 0x0A then [] # split_lines cs
      else (case split_lines cs of [] \<Rightarrow> [[c]] | l # ls \<Rightarrow> (c # l) # ls))"

definition line_label :: "string \<Rightarrow> string option" where
  "line_label l =
     (if CHR '':'' \<in> set l then Some (takeWhile (\<lambda>c. c \<noteq> CHR '':'') l) else None)"

definition program_labels :: "string \<Rightarrow> string list" where
  "program_labels text = List.map_filter line_label (split_lines text)"

text \<open>The string literals of a tree, in the order of the walk.\<close>

fun strings_expr :: "expr \<Rightarrow> string list" where
  "strings_expr (Parens e) = strings_expr e"
| "strings_expr (FuncCallExpr f args) = concat (map strings_expr args)"
| "strings_expr (Neg op e) = strings_expr e"
| "strings_expr (MulDiv op e0 e1) = strings_expr e0 @ strings_expr e1"
| "strings_expr (AddSub op e0 e1) = strings_expr e0 @ strings_expr e1"
| "strings_expr (Compare op e0 e1) = strings_expr e0 @ strings_expr e1"
| "strings_expr (Variable n) = []"
| "strings_expr (StringLiteral s) = [s]"
| "strings_expr (IntLiteral s) = []"
| "strings_expr (BoolLiteral s) = []"

fun strings_statement :: "statement \<Rightarrow> string list" where
  "strings_statement (Assignment n e) = strings_expr e"
| "strings_statement (While e b) = strings_expr e @ concat (map strings_statement b)"
| "strings_statement (If_stmt e b0 b1) =
     strings_expr e @ concat (map strings_statement b0)
       @ (case b1 of None \<Rightarrow> [] | Some b \<Rightarrow> concat (map strings_statement b))"
| "strings_statement (Print e) = strings_expr e"
| "strings_statement (Return eo) = (case eo of None \<Rightarrow> [] | Some e \<Rightarrow> strings_expr e)"
| "strings_statement (FuncCallStmt f args) = concat (map strings_expr args)"

fun strings_varDec :: "varDec \<Rightarrow> string list" where
  "strings_varDec (VarDec n t init) = (case init of None \<Rightarrow> [] | Some e \<Rightarrow> strings_expr e)"

fun strings_body :: "body \<Rightarrow> string list" where
  "strings_body (Body vds b) =
     concat (map strings_varDec vds) @ concat (map strings_statement b)"

fun strings_funcDef :: "funcDef \<Rightarrow> string list" where
  "strings_funcDef (FuncDef f ps rt bd) = strings_body bd"

fun strings_script :: "script \<Rightarrow> string list" where
  "strings_script (Script fds bd) = concat (map strings_funcDef fds) @ strings_body bd"

text \<open>
  What the lexer gives: the text of an integer literal has no newline and no colon, the
  text of a string literal has no newline.
\<close>

fun plain_tokens_expr :: "expr \<Rightarrow> bool" where
  "plain_tokens_expr (Parens e) = plain_tokens_expr e"
| "plain_tokens_expr (FuncCallExpr f args) = list_all plain_tokens_expr args"
| "plain_tokens_expr (Neg op e) = plain_tokens_expr e"
| "plain_tokens_expr (MulDiv op e0 e1) = (plain_tokens_expr e0 \<and> plain_tokens_expr e1)"
| "plain_tokens_expr (AddSub op e0 e1) = (plain_tokens_expr e0 \<and> plain_tokens_expr e1)"
| "plain_tokens_expr (Compare op e0 e1) = (plain_tokens_expr e0 \<and> plain_tokens_expr e1)"
| "plain_tokens_expr (Variable n) = True"
| "plain_tokens_expr (StringLiteral s) = (CHR 0x0A \<notin> set s)"
| "plain_tokens_expr (IntLiteral s) = (CHR 0x0A \<notin> set s \<and> CHR '':'' \<notin> set s)"
| "plain_tokens_expr (BoolLiteral s) = True"

fun plain_tokens_statement :: "statement \<Rightarrow> bool" where
  "plain_tokens_statement (Assignment n e) = plain_tokens_expr e"
| "plain_tokens_statement (While e b) =
     (plain_tokens_expr e \<and> list_all plain_tokens_statement b)"
| "plain_tokens_statement (If_stmt e b0 b1) =
     (plain_tokens_expr e \<and> list_all plain_tokens_statement b0
      \<and> (case b1 of None \<Rightarrow> True | Some b \<Rightarrow> list_all plain_tokens_statement b))"
| "plain_tokens_statement (Print e) = plain_tokens_expr e"
| "plain_tokens_statement (Return eo) =
     (case eo of None \<Rightarrow> True | Some e \<Rightarrow> plain_tokens_expr e)"
| "plain_tokens_statement (FuncCallStmt f args) = list_all plain_tokens_expr args"

fun plain_tokens_varDec :: "varDec \<Rightarrow> bool" where
  "plain_tokens_varDec (VarDec n t init) =
     (case init of None \<Rightarrow> True | Some e \<Rightarrow> plain_tokens_expr e)"

fun plain_tokens_body :: "body \<Rightarrow> bool" where
  "plain_tokens_body (Body vds b) =
     (list_all plain_tokens_varDec vds \<and> list_all plain_tokens_statement b)"

fun plain_tokens_funcDef :: "funcDef \<Rightarrow> bool" where
  "plain_tokens_funcDef (FuncDef f ps rt bd) = plain_tokens_body bd"

fun plain_tokens_script :: "script \<Rightarrow> bool" where
  "plain_tokens_script (Script fds bd) =
     (list_all plain_tokens_funcDef fds \<and> plain_tokens_body bd)"

text \<open>
  The number of if statements whose fragment is part of the fragment of a statement:
  \<open>exitIf\<close> formats the fragment of the first block only.
\<close>

fun emitted_ifs :: "statement \<Rightarrow> nat" where
  "emitted_ifs (If_stmt e b0 b1) = Suc (sum_list (map emitted_ifs b0))"
| "emitted_ifs s = 0"

fun emitted_ifs_script :: "script \<Rightarrow> nat" where
  "emitted_ifs_script (Script fds (Body vds b)) = sum_list (map emitted_ifs b)"

text \<open>
  The invariant of the generator: the keys of the pool are distinct labels that
  \<open>unique_label\<close> has issued for the base \<open>string\<close>, so their counters are at most the
  current one.
\<close>

definition pool_ok :: "MIPSGenerator \<Rightarrow> bool" where
  "pool_ok g =
     (distinct (map fst (string_literals g))
      \<and> (\<forall>l \<in> set (map fst (string_literals g)).
            \<exists>k. k \<le> label_index g \<and> l = ''string_'' @ str_int k))"

text \<open>
  What a walk from \<open>g\<close> to \<open>g'\<close> does to the generator: the invariant holds, the counter has
  not decreased, and the pool has got the texts \<open>ss\<close>, in this order.
\<close>

definition steps :: "MIPSGenerator \<Rightarrow> MIPSGenerator \<Rightarrow> string list \<Rightarrow> bool" where
  "steps g g' ss =
     (pool_ok g' \<and> label_index g \<le> label_index g'
      \<and> map snd (string_literals g') = map snd (string_literals g) @ ss)"

text \<open>Distinct labels of the base \<open>endif\<close> with counters above \<open>lo\<close> and up to \<open>hi\<close>.\<close>

definition endif_range :: "int \<Rightarrow> int \<Rightarrow> string list \<Rightarrow> bool" where
  "endif_range lo hi L =
     (distinct L \<and> (\<forall>l \<in> set L. \<exists>k. lo < k \<and> k \<le> hi \<and> l = ''endif_'' @ str_int k))"

section \<open>Properties of the type checker\<close>

text \<open>
  C4. The type matrix of the binary operators: \<open>+\<close> gives String on two String operands;
  otherwise \<open>+\<close>, \<open>-\<close>, \<open>*\<close> and \<open>/\<close> give Int on two Int operands and the comparisons
  give Bool on two Int operands; every other pair of operand types gives the node the
  type ERROR and appends exactly one INVALID_BINARY_OP entry for the node.
\<close>

theorem binary_type_matrix:
  "exitAddSub st c op t0 t1 =
     (if op = ''+'' \<and> t0 = String_t \<and> t1 = String_t then (st, String_t)
      else if t0 = Int_t \<and> t1 = Int_t then (st, Int_t)
      else (st\<lparr>error_log2 := error_log2 st @ [Entry c INVALID_BINARY_OP]\<rparr>, ERROR_t))
   \<and> exitMulDiv st c t0 t1 =
     (if t0 = Int_t \<and> t1 = Int_t then (st, Int_t)
      else (st\<lparr>error_log2 := error_log2 st @ [Entry c INVALID_BINARY_OP]\<rparr>, ERROR_t))
   \<and> exitCompare st c t0 t1 =
     (if t0 = Int_t \<and> t1 = Int_t then (st, Bool_t)
      else (st\<lparr>error_log2 := error_log2 st @ [Entry c INVALID_BINARY_OP]\<rparr>, ERROR_t))"
  by (simp add: exitAddSub_def exitMulDiv_def exitCompare_def binary_on_ints_def log2_def
      add_def)

theorem binary_type_matrix_witness:
  "exitAddSub \<lparr>error_log2 = [], current_scope2 = Some 1\<rparr>
      (ExprCtx (AddSub ''+'' (StringLiteral ''a'') (IntLiteral ''1''))) ''+'' String_t Int_t
     = (\<lparr>error_log2 =
           [Entry (ExprCtx (AddSub ''+'' (StringLiteral ''a'') (IntLiteral ''1'')))
              INVALID_BINARY_OP],
         current_scope2 = Some 1\<rparr>, ERROR_t)
   \<and> exitAddSub \<lparr>error_log2 = [], current_scope2 = Some 1\<rparr>
      (ExprCtx (AddSub ''-'' (StringLiteral ''a'') (StringLiteral ''b''))) ''-'' String_t String_t
     = (\<lparr>error_log2 =
           [Entry (ExprCtx (AddSub ''-'' (StringLiteral ''a'') (StringLiteral ''b'')))
              INVALID_BINARY_OP],
         current_scope2 = Some 1\<rparr>, ERROR_t)"
  using binary_type_matrix [of "\<lparr>error_log2 = [], current_scope2 = Some 1\<rparr>"
      "ExprCtx (AddSub ''+'' (StringLiteral ''a'') (IntLiteral ''1''))" "''+''" String_t Int_t]
    binary_type_matrix [of "\<lparr>error_log2 = [], current_scope2 = Some 1\<rparr>"
      "ExprCtx (AddSub ''-'' (StringLiteral ''a'') (StringLiteral ''b''))" "''-''"
      String_t String_t]
  by simp

text \<open>
  C6. A unary expression: \<open>-\<close> on an Int operand has type Int, \<open>!\<close> on a Bool operand has
  type Bool, and every other combination of operator and operand type gives the node the
  type ERROR and appends exactly one INVALID_NEGATION entry for the node.
\<close>

theorem neg_type_rule:
  "exitNeg st c op t =
     (if op = ''-'' \<and> t = Int_t then (st, Int_t)
      else if op = ''!'' \<and> t = Bool_t then (st, Bool_t)
      else (st\<lparr>error_log2 := error_log2 st @ [Entry c INVALID_NEGATION]\<rparr>, ERROR_t))"
  by (simp add: exitNeg_def log2_def add_def)

theorem neg_type_rule_witness:
  "exitNeg \<lparr>error_log2 = [], current_scope2 = Some 1\<rparr>
      (ExprCtx (Neg ''-'' (BoolLiteral ''true''))) ''-'' Bool_t
     = (\<lparr>error_log2 = [Entry (ExprCtx (Neg ''-'' (BoolLiteral ''true''))) INVALID_NEGATION],
         current_scope2 = Some 1\<rparr>, ERROR_t)
   \<and> exitNeg \<lparr>error_log2 = [], current_scope2 = Some 1\<rparr>
      (ExprCtx (Neg ''!'' (BoolLiteral ''true''))) ''!'' Bool_t
     = (\<lparr>error_log2 = [], current_scope2 = Some 1\<rparr>, Bool_t)"
  using neg_type_rule [of "\<lparr>error_log2 = [], current_scope2 = Some 1\<rparr>"
      "ExprCtx (Neg ''-'' (BoolLiteral ''true''))" "''-''" Bool_t]
    neg_type_rule [of "\<lparr>error_log2 = [], current_scope2 = Some 1\<rparr>"
      "ExprCtx (Neg ''!'' (BoolLiteral ''true''))" "''!''" Bool_t]
  by simp

subsection \<open>The analysis as a whole, names and declarations\<close>

lemma walk2_script_raises:
  "walk2_script A ms (InferTypesAndCheckConstraints errors) tree = Inl AttributeError"
  by (cases tree) (simp add: InferTypesAndCheckConstraints_def enterScript2_def)

text \<open>
  C1. What the code does: pass 2 starts with \<open>enterScript\<close>, which reads
  \<open>self.current_scope.enclosing_scope\<close> while \<open>current_scope\<close> is still \<open>None\<close>. So for
  every tree on which pass 1 completes, \<open>do_semantic_analysis\<close> raises AttributeError
  before pass 2 has visited a node, and for no tree does it return the tree.
\<close>

theorem analysis_always_raises:
  "(\<forall>s1. walk1_script (DefineScopesAndSymbols []) tree = Inr s1 \<longrightarrow>
        do_semantic_analysis tree = Inl AttributeError)
   \<and> (\<forall>r. do_semantic_analysis tree \<noteq> Inr r)"
  by (auto simp: do_semantic_analysis_def walk2_script_raises split: sum.splits)

theorem analysis_always_raises_witness:
  "walk1_script (DefineScopesAndSymbols [])
      (Script []
        (Body [VarDec ''x'' ''Int'' (Some (IntLiteral ''5''))] [Print (Variable ''x'')])) =
     Inr \<lparr>error_log = [], current_scope = Some 0,
          scopes =
            [\<lparr>scope_name = ''$global'', return_type = Void_t, enclosing_scope = None,
               symbols = []\<rparr>,
             \<lparr>scope_name = ''$main'', return_type = Void_t, enclosing_scope = Some 0,
               symbols = [(''x'', \<lparr>sym_name = ''x'', sym_type = Int_t\<rparr>)]\<rparr>],
          script_scope = Some 0, main_scope = Some 1\<rparr>
   \<and> do_semantic_analysis
      (Script []
        (Body [VarDec ''x'' ''Int'' (Some (IntLiteral ''5''))] [Print (Variable ''x'')])) =
     Inl AttributeError"
proof -
  have w: "walk1_script (DefineScopesAndSymbols [])
      (Script []
        (Body [VarDec ''x'' ''Int'' (Some (IntLiteral ''5''))] [Print (Variable ''x'')])) =
     Inr \<lparr>error_log = [], current_scope = Some 0,
          scopes =
            [\<lparr>scope_name = ''$global'', return_type = Void_t, enclosing_scope = None,
               symbols = []\<rparr>,
             \<lparr>scope_name = ''$main'', return_type = Void_t, enclosing_scope = Some 0,
               symbols = [(''x'', \<lparr>sym_name = ''x'', sym_type = Int_t\<rparr>)]\<rparr>],
          script_scope = Some 0, main_scope = Some 1\<rparr>"
    by (simp add: DefineScopesAndSymbols_def enterScript1_def enterMain1_def exitMain1_def
        new_Scope_def exitVarDec1_def duplicate_name_def resolve_locally_def
        PrimitiveType_getitem_def define_sym_def)
  from analysis_always_raises [THEN conjunct1, rule_format, OF w] w show ?thesis by simp
qed

text \<open>
  C2. What the code does at a variable reference, in a listener whose current scope is
  set: when the name resolves, the node's type is the type of the symbol and nothing is
  logged; when the name does not resolve, the read of \<open>.type\<close> on \<open>None\<close> raises
  AttributeError, and no UNDEFINED_NAME entry is logged.
\<close>

theorem variable_unresolved_raises:
  "current_scope2 st = Some r \<Longrightarrow>
     exitVariable A st c n =
       (case resolve A r n of
          None \<Rightarrow> Inl AttributeError
        | Some s \<Rightarrow> Inr (st, sym_type s))"
  by (simp add: exitVariable_def truthy_def split: option.splits)

theorem variable_unresolved_raises_witness:
  "walk2_expr
     [\<lparr>scope_name = ''$global'', return_type = Void_t, enclosing_scope = None, symbols = []\<rparr>,
      \<lparr>scope_name = ''$main'', return_type = Void_t, enclosing_scope = Some 0, symbols = []\<rparr>]
     \<lparr>error_log2 = [], current_scope2 = Some 1\<rparr> (Variable ''x'')
   = Inl AttributeError"
proof -
  have "resolve
     [\<lparr>scope_name = ''$global'', return_type = Void_t, enclosing_scope = None, symbols = []\<rparr>,
      \<lparr>scope_name = ''$main'', return_type = Void_t, enclosing_scope = Some 0, symbols = []\<rparr>]
     1 ''x'' = None"
    by (simp add: resolve.simps resolve_locally_def)
  then show ?thesis
    using variable_unresolved_raises [of "\<lparr>error_log2 = [], current_scope2 = Some 1\<rparr>" 1
      "[\<lparr>scope_name = ''$global'', return_type = Void_t, enclosing_scope = None, symbols = []\<rparr>,
      \<lparr>scope_name = ''$main'', return_type = Void_t, enclosing_scope = Some 0, symbols = []\<rparr>]"
      "ExprCtx (Variable ''x'')" "''x''"]
    by simp
qed

text \<open>
  C3. What the code does at an assignment, in a listener whose current scope is set: when
  the target resolves and its type differs from the type of the expression, exactly one
  ASSIGN_TO_WRONG_TYPE entry is appended; when the types are equal nothing is logged; when
  the target does not resolve, the read of \<open>.type\<close> on \<open>None\<close> raises AttributeError, and
  no UNDEFINED_NAME entry is logged.
\<close>

theorem assignment_unresolved_raises:
  "current_scope2 st = Some r \<Longrightarrow>
     exitAssignment A st c n t =
       (case resolve A r n of
          None \<Rightarrow> Inl AttributeError
        | Some s \<Rightarrow>
            if sym_type s \<noteq> t
            then Inr (st\<lparr>error_log2 := error_log2 st @ [Entry c ASSIGN_TO_WRONG_TYPE]\<rparr>)
            else Inr st)"
  by (simp add: exitAssignment_def truthy_def log_invalid_assign_def log2_def add_def
      split: option.splits)

theorem assignment_unresolved_raises_witness:
  "walk2_statement
     [\<lparr>scope_name = ''$global'', return_type = Void_t, enclosing_scope = None, symbols = []\<rparr>,
      \<lparr>scope_name = ''$main'', return_type = Void_t, enclosing_scope = Some 0, symbols = []\<rparr>]
     \<lparr>error_log2 = [], current_scope2 = Some 1\<rparr> (Assignment ''x'' (IntLiteral ''5''))
   = Inl AttributeError"
proof -
  have "resolve
     [\<lparr>scope_name = ''$global'', return_type = Void_t, enclosing_scope = None, symbols = []\<rparr>,
      \<lparr>scope_name = ''$main'', return_type = Void_t, enclosing_scope = Some 0, symbols = []\<rparr>]
     1 ''x'' = None"
    by (simp add: resolve.simps resolve_locally_def)
  then show ?thesis
    using assignment_unresolved_raises [of "\<lparr>error_log2 = [], current_scope2 = Some 1\<rparr>" 1
      "[\<lparr>scope_name = ''$global'', return_type = Void_t, enclosing_scope = None, symbols = []\<rparr>,
      \<lparr>scope_name = ''$main'', return_type = Void_t, enclosing_scope = Some 0, symbols = []\<rparr>]"
      "StatementCtx (Assignment ''x'' (IntLiteral ''5''))" "''x''" Int_t]
    by (simp add: exitIntLiteral_def)
qed






section \<open>Properties of the code generator\<close>

subsection \<open>Decimal text\<close>

lemma str_int_1: "str_int 1 = ''1''"
  by code_simp

lemma str_int_4: "str_int 4 = ''4''"
  by code_simp

lemma digit_inj:
  assumes "a < 10" "b < 10" "char_of (48 + a) = (char_of (48 + b) :: char)"
  shows "a = (b::nat)"
proof -
  have "of_char (char_of (48 + a) :: char) = (of_char (char_of (48 + b) :: char) :: nat)"
    using assms(3) by simp
  then show ?thesis using assms(1,2) by simp
qed

lemma digit_not_char:
  assumes "(d::nat) < 10" "of_char c < (48::nat) \<or> (57::nat) < of_char c"
  shows "char_of (48 + d) \<noteq> c"
proof
  assume "char_of (48 + d) = c"
  then have "(of_char c :: nat) = of_char (char_of (48 + d) :: char)" by simp
  also have "\<dots> = 48 + d" using assms(1) by simp
  finally show False using assms by simp
qed

lemma str_nat_nonempty: "str_nat n \<noteq> []"
  by (subst str_nat.simps) simp

lemma str_nat_chars: "c \<in> set (str_nat n) \<Longrightarrow> \<exists>d::nat. d < 10 \<and> c = char_of (48 + d)"
proof (induction n rule: str_nat.induct)
  case (1 n)
  show ?case
  proof (cases "n < 10")
    case True
    with "1.prems" show ?thesis by (subst (asm) str_nat.simps) auto
  next
    case False
    from "1.prems" have "c \<in> set (str_nat (n div 10)) \<or> c = char_of (48 + n mod 10)"
      using False by (subst (asm) str_nat.simps) auto
    then show ?thesis
    proof
      assume "c \<in> set (str_nat (n div 10))"
      then show ?thesis using "1.IH" False by simp
    next
      assume "c = char_of (48 + n mod 10)"
      moreover have "n mod 10 < 10" by simp
      ultimately show ?thesis by blast
    qed
  qed
qed

lemma str_nat_inj: "str_nat n = str_nat m \<Longrightarrow> n = m"
proof (induction n arbitrary: m rule: str_nat.induct)
  case (1 n)
  show ?case
  proof (cases "n < 10")
    case True
    then have n: "str_nat n = [char_of (48 + n)]" by (subst str_nat.simps) simp
    show ?thesis
    proof (cases "m < 10")
      case mt: True
      then have "str_nat m = [char_of (48 + m)]" by (subst str_nat.simps) simp
      with n "1.prems" True mt show ?thesis by (auto dest: digit_inj)
    next
      case mf: False
      then have "str_nat m = str_nat (m div 10) @ [char_of (48 + m mod 10)]"
        by (subst str_nat.simps) simp
      with n "1.prems" have "str_nat (m div 10) = []" by simp
      then show ?thesis using str_nat_nonempty by blast
    qed
  next
    case False
    then have n: "str_nat n = str_nat (n div 10) @ [char_of (48 + n mod 10)]"
      by (subst str_nat.simps) simp
    show ?thesis
    proof (cases "m < 10")
      case mt: True
      then have "str_nat m = [char_of (48 + m)]" by (subst str_nat.simps) simp
      with n "1.prems" have "str_nat (n div 10) = []" by simp
      then show ?thesis using str_nat_nonempty by blast
    next
      case mf: False
      then have "str_nat m = str_nat (m div 10) @ [char_of (48 + m mod 10)]"
        by (subst str_nat.simps) simp
      with n "1.prems" have a: "str_nat (n div 10) = str_nat (m div 10)"
        and b: "char_of (48 + n mod 10) = (char_of (48 + m mod 10) :: char)" by simp_all
      from a have "n div 10 = m div 10" using "1.IH" False by simp
      moreover from b have "n mod 10 = m mod 10" by (rule digit_inj [rotated 2]) simp_all
      ultimately show ?thesis by (metis div_mult_mod_eq)
    qed
  qed
qed

lemma str_int_inj: "str_int i = str_int j \<Longrightarrow> i = j"
proof -
  assume eq: "str_int i = str_int j"
  have minus: "\<And>n. CHR ''-'' \<notin> set (str_nat n)"
  proof
    fix n assume "CHR ''-'' \<in> set (str_nat n)"
    then obtain d :: nat where d: "d < 10" "CHR ''-'' = (char_of (48 + d) :: char)"
      using str_nat_chars by blast
    have "char_of (48 + d) \<noteq> CHR ''-''"
      by (rule digit_not_char) (simp_all add: d(1))
    with d(2) show False by simp
  qed
  have hd_in: "\<And>n. hd (str_nat n) \<in> set (str_nat n)" using str_nat_nonempty by simp
  show ?thesis
  proof (cases "i < 0")
    case True
    show ?thesis
    proof (cases "j < 0")
      case jt: True
      with True eq have "str_nat (nat (- i)) = str_nat (nat (- j))" by (simp add: str_int_def)
      then have "nat (- i) = nat (- j)" by (rule str_nat_inj)
      with True jt show ?thesis by simp
    next
      case jf: False
      with True eq have "CHR ''-'' # str_nat (nat (- i)) = str_nat (nat j)"
        by (simp add: str_int_def)
      then have "CHR ''-'' \<in> set (str_nat (nat j))" by (metis list.set_intros(1))
      then show ?thesis using minus by blast
    qed
  next
    case False
    show ?thesis
    proof (cases "j < 0")
      case jt: True
      with False eq have "str_nat (nat i) = CHR ''-'' # str_nat (nat (- j))"
        by (simp add: str_int_def)
      then have "CHR ''-'' \<in> set (str_nat (nat i))" by (metis list.set_intros(1))
      then show ?thesis using minus by blast
    next
      case jf: False
      with False eq have "str_nat (nat i) = str_nat (nat j)" by (simp add: str_int_def)
      then have "nat i = nat j" by (rule str_nat_inj)
      with False jf show ?thesis by simp
    qed
  qed
qed

lemma str_int_no_underscore: "CHR ''_'' \<notin> set (str_int i)"
proof -
  have "\<And>n. CHR ''_'' \<notin> set (str_nat n)"
  proof
    fix n assume "CHR ''_'' \<in> set (str_nat n)"
    then obtain d :: nat where d: "d < 10" "CHR ''_'' = (char_of (48 + d) :: char)"
      using str_nat_chars by blast
    have "char_of (48 + d) \<noteq> CHR ''_''"
      by (rule digit_not_char) (simp_all add: d(1))
    with d(2) show False by simp
  qed
  then show ?thesis by (simp add: str_int_def)
qed

lemma suffix_after_underscore:
  assumes "CHR ''_'' \<notin> set d"
  shows "rev (takeWhile (\<lambda>c. c \<noteq> CHR ''_'') (rev (b @ ''_'' @ d))) = d"
proof -
  have "rev (b @ ''_'' @ d) = rev d @ CHR ''_'' # rev b" by simp
  moreover have "takeWhile (\<lambda>c. c \<noteq> CHR ''_'') (rev d @ CHR ''_'' # rev b) = rev d"
    using assms by (subst takeWhile_append2) auto
  ultimately show ?thesis by simp
qed

lemma label_inj:
  assumes "b1 @ ''_'' @ str_int i = b2 @ ''_'' @ str_int j"
  shows "i = j"
proof -
  have "str_int i = rev (takeWhile (\<lambda>c. c \<noteq> CHR ''_'') (rev (b1 @ ''_'' @ str_int i)))"
    using suffix_after_underscore [OF str_int_no_underscore] by simp
  also have "\<dots> = rev (takeWhile (\<lambda>c. c \<noteq> CHR ''_'') (rev (b2 @ ''_'' @ str_int j)))"
    using assms by simp
  also have "\<dots> = str_int j"
    using suffix_after_underscore [OF str_int_no_underscore] by simp
  finally show ?thesis by (rule str_int_inj)
qed

lemma unique_labels_index:
  "l \<in> set (snd (unique_labels g bases)) \<Longrightarrow>
     \<exists>b k. l = b @ ''_'' @ str_int k \<and> label_index g < k"
proof (induction bases arbitrary: g)
  case Nil
  then show ?case by simp
next
  case (Cons base bases)
  let ?g' = "fst (unique_label g base)"
  from Cons.prems have "l = snd (unique_label g base) \<or> l \<in> set (snd (unique_labels ?g' bases))"
    by (auto simp: split_beta Let_def)
  then show ?case
  proof
    assume "l = snd (unique_label g base)"
    then have "l = base @ ''_'' @ str_int (label_index g + 1)"
      by (simp add: unique_label_def Let_def)
    then show ?thesis by force
  next
    assume "l \<in> set (snd (unique_labels ?g' bases))"
    then obtain b k where "l = b @ ''_'' @ str_int k" "label_index ?g' < k"
      using Cons.IH by blast
    moreover have "label_index ?g' = label_index g + 1" by (simp add: unique_label_def Let_def)
    ultimately show ?thesis by force
  qed
qed

lemma unique_labels_distinct: "distinct (snd (unique_labels g bases))"
proof (induction bases arbitrary: g)
  case Nil
  then show ?case by simp
next
  case (Cons base bases)
  let ?g' = "fst (unique_label g base)"
  have new: "snd (unique_label g base) \<notin> set (snd (unique_labels ?g' bases))"
  proof
    assume "snd (unique_label g base) \<in> set (snd (unique_labels ?g' bases))"
    then obtain b k where l: "snd (unique_label g base) = b @ ''_'' @ str_int k"
      and k: "label_index ?g' < k"
      using unique_labels_index by blast
    have "snd (unique_label g base) = base @ ''_'' @ str_int (label_index g + 1)"
      by (simp add: unique_label_def Let_def)
    with l have "label_index g + 1 = k" using label_inj by metis
    moreover have "label_index ?g' = label_index g + 1" by (simp add: unique_label_def Let_def)
    ultimately show False using k by simp
  qed
  show ?case using new Cons.IH [of ?g'] by (simp add: split_beta Let_def)
qed

subsection \<open>Labels of a program text\<close>

lemma split_lines_nonempty: "split_lines s \<noteq> []"
  by (induction s) (auto split: list.splits)

lemma split_lines_append: "split_lines (a @ CHR 0x0A # b) = split_lines a @ split_lines b"
proof (induction a)
  case Nil
  then show ?case by simp
next
  case (Cons c a)
  then show ?case
    using split_lines_nonempty [of a] by (auto split: list.splits)
qed

lemma split_lines_plain: "CHR 0x0A \<notin> set s \<Longrightarrow> split_lines s = [s]"
  by (induction s) auto

lemma map_filter_append: "List.map_filter f (xs @ ys) = List.map_filter f xs @ List.map_filter f ys"
  by (simp add: List.map_filter_def)

lemma program_labels_append:
  "program_labels (a @ CHR 0x0A # b) = program_labels a @ program_labels b"
  by (simp add: program_labels_def split_lines_append map_filter_append)

lemma program_labels_Nil: "program_labels [] = []"
  by (simp add: program_labels_def line_label_def List.map_filter_def)

lemma program_labels_plain:
  "CHR 0x0A \<notin> set l \<Longrightarrow> CHR '':'' \<notin> set l \<Longrightarrow> program_labels l = []"
  by (simp add: program_labels_def split_lines_plain line_label_def List.map_filter_def)

lemma program_labels_label:
  assumes "CHR 0x0A \<notin> set x" "CHR 0x0A \<notin> set r" "CHR '':'' \<notin> set x"
  shows "program_labels (x @ CHR '':'' # r) = [x]"
proof -
  have "takeWhile (\<lambda>c. c \<noteq> CHR '':'') (x @ CHR '':'' # r) = x"
    using assms(3) by (subst takeWhile_append2) auto
  then show ?thesis
    using assms(1,2)
    by (simp add: program_labels_def split_lines_plain line_label_def List.map_filter_def)
qed

lemma program_labels_text_lines:
  "program_labels (text_lines ls) = concat (map program_labels ls)"
proof (induction ls)
  case Nil
  then show ?case by (simp add: text_lines_def program_labels_Nil)
next
  case (Cons l ls)
  have "text_lines (l # ls) = l @ CHR 0x0A # text_lines ls"
    by (simp add: text_lines_def newline_def)
  then show ?case using Cons by (simp add: program_labels_append)
qed

lemma program_labels_join_sep:
  "sep = newline \<Longrightarrow> program_labels (join sep ms) = concat (map program_labels ms)"
  by (induction sep ms rule: join.induct)
    (simp_all add: program_labels_Nil newline_def program_labels_append)

lemma program_labels_join:
  "program_labels (join newline ms) = concat (map program_labels ms)"
  by (rule program_labels_join_sep) simp

lemma str_nat_plain: "CHR 0x0A \<notin> set (str_nat n)" "CHR '':'' \<notin> set (str_nat n)"
proof -
  have "\<And>c. c \<in> set (str_nat n) \<Longrightarrow> c \<noteq> CHR 0x0A \<and> c \<noteq> CHR '':''"
  proof -
    fix c assume "c \<in> set (str_nat n)"
    then obtain d :: nat where d: "d < 10" "c = char_of (48 + d)"
      using str_nat_chars by blast
    have "char_of (48 + d) \<noteq> CHR 0x0A"
      by (rule digit_not_char) (simp_all add: d(1))
    moreover have "char_of (48 + d) \<noteq> CHR '':''"
      by (rule digit_not_char) (simp_all add: d(1))
    ultimately show "c \<noteq> CHR 0x0A \<and> c \<noteq> CHR '':''" using d(2) by simp
  qed
  then show "CHR 0x0A \<notin> set (str_nat n)" "CHR '':'' \<notin> set (str_nat n)" by blast+
qed

lemma str_int_plain: "CHR 0x0A \<notin> set (str_int k)" "CHR '':'' \<notin> set (str_int k)"
  using str_nat_plain by (simp_all add: str_int_def)

lemma string_label_plain:
  "CHR 0x0A \<notin> set (''string_'' @ str_int k)" "CHR '':'' \<notin> set (''string_'' @ str_int k)"
  using str_int_plain by simp_all

lemma endif_label_plain:
  "CHR 0x0A \<notin> set (''endif_'' @ str_int k)" "CHR '':'' \<notin> set (''endif_'' @ str_int k)"
  using str_int_plain by simp_all

lemma program_labels_exitIntLiteral:
  "CHR 0x0A \<notin> set s \<Longrightarrow> CHR '':'' \<notin> set s \<Longrightarrow> program_labels (exitIntLiteral_mips s) = []"
  by (rule program_labels_plain) (simp_all add: exitIntLiteral_mips_def)

lemma program_labels_exitBoolLiteral: "program_labels (exitBoolLiteral_mips s) = []"
  by (rule program_labels_plain) (simp_all add: exitBoolLiteral_mips_def str_int_plain)

lemma program_labels_exitStringLiteral:
  "program_labels (snd (exitStringLiteral_mips g s)) = []"
  by (rule program_labels_plain)
    (simp_all add: exitStringLiteral_mips_def unique_label_def Let_def str_int_plain)

lemma program_labels_exitAddSub:
  "exitAddSub_mips op (Some m0) (Some m1) = Inr t \<Longrightarrow>
     program_labels t = program_labels m0 @ program_labels m1"
  by (auto simp: exitAddSub_mips_def get_mips_def add_sub_def program_labels_text_lines
      program_labels_plain)

lemma program_labels_exitPrint:
  "exitPrint_mips ty (Some m) = Inr t \<Longrightarrow> program_labels t = program_labels m"
  by (auto simp: exitPrint_mips_def get_mips_def print_bool_def print_int_or_string_def
      program_labels_text_lines program_labels_plain str_int_plain split: if_splits)

lemma program_labels_if_template:
  assumes "CHR 0x0A \<notin> set l" "CHR '':'' \<notin> set l"
  shows "program_labels (if_template c t l) = program_labels c @ program_labels t @ [l]"
proof -
  have "program_labels (l @ '':'') = [l]"
    using program_labels_label [of l "[]"] assms by simp
  moreover have "program_labels (''beq    $t0 $t1 '' @ l) = []"
    by (rule program_labels_plain) (simp_all add: assms)
  moreover have "program_labels ''li     $t1 0'' = []"
    by (rule program_labels_plain) simp_all
  ultimately show ?thesis
    by (simp add: if_template_def program_labels_text_lines)
qed

lemma program_labels_script_template:
  \<open>program_labels (script_template sl m) =
     [''true_string'', ''false_string''] @ program_labels sl
       @ [''true_false_string'', ''choose_false'', ''end_true_false_string'', ''main'']
       @ program_labels m @ [''halt'']\<close>
proof -
  have a: \<open>program_labels ''true_string: .asciiz "true"'' = [''true_string'']\<close>
    using program_labels_label [of "''true_string''" \<open>'' .asciiz "true"''\<close>] by simp
  have b: \<open>program_labels ''false_string: .asciiz "false"'' = [''false_string'']\<close>
    using program_labels_label [of "''false_string''" \<open>'' .asciiz "false"''\<close>] by simp
  have c: "program_labels ''true_false_string:'' = [''true_false_string'']"
    using program_labels_label [of "''true_false_string''" "[]"] by simp
  have d: "program_labels ''choose_false:'' = [''choose_false'']"
    using program_labels_label [of "''choose_false''" "[]"] by simp
  have e: "program_labels ''end_true_false_string:'' = [''end_true_false_string'']"
    using program_labels_label [of "''end_true_false_string''" "[]"] by simp
  have f: "program_labels ''main: '' = [''main'']"
    using program_labels_label [of "''main''" "'' ''"] by simp
  have g: "program_labels ''halt:'' = [''halt'']"
    using program_labels_label [of "''halt''" "[]"] by simp
  have p: "program_labels ''.data'' = []" "program_labels ''    '' = []"
    "program_labels ''.text'' = []"
    "program_labels ''beq    $t0 $zero choose_false'' = []"
    "program_labels ''la     $a0 true_string'' = []"
    "program_labels ''j      end_true_false_string'' = []"
    "program_labels ''la     $a0 false_string'' = []"
    "program_labels ''jr     $ra'' = []"
    "program_labels ''li $v0 10'' = []"
    "program_labels ''syscall'' = []"
    by (rule program_labels_plain; simp)+
  show ?thesis
    unfolding script_template_def program_labels_text_lines
    by (simp only: list.map concat.simps a b c d e f g p program_labels_Nil append_Nil
        append_Nil2 append_Cons append_assoc)
qed

lemma program_labels_data_lines:
  assumes "\<forall>(l, s) \<in> set pool. CHR 0x0A \<notin> set l \<and> CHR '':'' \<notin> set l \<and> CHR 0x0A \<notin> set s"
  shows "concat (map program_labels (map (\<lambda>(label, string). label @ '': .asciiz '' @ string) pool))
           = map fst pool"
  using assms
proof (induction pool)
  case Nil
  then show ?case by simp
next
  case (Cons p pool)
  obtain l s where p: "p = (l, s)" by (cases p)
  with Cons.prems have "program_labels (l @ CHR '':'' # '' .asciiz '' @ s) = [l]"
    by (intro program_labels_label) auto
  with Cons p show ?case by simp
qed

lemma update_fresh: "k \<notin> fst ` set al \<Longrightarrow> AList.update k v al = al @ [(k, v)]"
  by (induction al) auto

lemma pool_ok_init: "pool_ok MIPSGenerator_init"
  by (simp add: pool_ok_def MIPSGenerator_init_def)

lemma pool_ok_fresh:
  assumes "pool_ok g"
  shows "''string_'' @ str_int (label_index g + 1) \<notin> fst ` set (string_literals g)"
proof
  assume "''string_'' @ str_int (label_index g + 1) \<in> fst ` set (string_literals g)"
  then obtain k where k: "k \<le> label_index g"
    and eq: "''string_'' @ str_int (label_index g + 1) = ''string_'' @ str_int k"
    using assms unfolding pool_ok_def by auto
  from eq have "label_index g + 1 = k" using str_int_inj by simp
  with k show False by simp
qed

lemma exitStringLiteral_mips_eq:
  assumes "pool_ok g"
  shows "exitStringLiteral_mips g s =
     (g\<lparr>label_index := label_index g + 1,
        string_literals :=
          string_literals g @ [(''string_'' @ str_int (label_index g + 1), s)]\<rparr>,
      ''la     $t0 '' @ ''string_'' @ str_int (label_index g + 1))"
  using pool_ok_fresh [OF assms]
  by (simp add: exitStringLiteral_mips_def unique_label_def Let_def update_fresh)

lemma steps_refl: "pool_ok g \<Longrightarrow> steps g g []"
  by (simp add: steps_def)

lemma steps_trans: "steps g g1 a \<Longrightarrow> steps g1 g2 b \<Longrightarrow> steps g g2 (a @ b)"
  by (simp add: steps_def)

lemma steps_pool_ok: "steps g g' ss \<Longrightarrow> pool_ok g'"
  by (simp add: steps_def)

lemma steps_mono: "steps g g' ss \<Longrightarrow> label_index g \<le> label_index g'"
  by (simp add: steps_def)

lemma steps_unique_label:
  assumes "pool_ok g"
  shows "steps g (fst (unique_label g b)) []"
proof -
  have "\<And>l. l \<in> fst ` set (string_literals g) \<Longrightarrow>
       \<exists>k. k \<le> label_index g + 1 \<and> l = ''string_'' @ str_int k"
  proof -
    fix l assume "l \<in> fst ` set (string_literals g)"
    then obtain k where "k \<le> label_index g" "l = ''string_'' @ str_int k"
      using assms unfolding pool_ok_def by auto
    then show "\<exists>k. k \<le> label_index g + 1 \<and> l = ''string_'' @ str_int k"
      by (intro exI [of _ k]) simp
  qed
  moreover have "distinct (map fst (string_literals g))"
    using assms by (simp add: pool_ok_def)
  ultimately show ?thesis
    unfolding steps_def pool_ok_def unique_label_def Let_def by auto
qed

lemma steps_exitStringLiteral:
  assumes "pool_ok g"
  shows "steps g (fst (exitStringLiteral_mips g s)) [s]"
proof -
  have "\<And>l. l \<in> fst ` set (string_literals g) \<Longrightarrow>
       \<exists>k. k \<le> label_index g + 1 \<and> l = ''string_'' @ str_int k"
  proof -
    fix l assume "l \<in> fst ` set (string_literals g)"
    then obtain k where "k \<le> label_index g" "l = ''string_'' @ str_int k"
      using assms unfolding pool_ok_def by auto
    then show "\<exists>k. k \<le> label_index g + 1 \<and> l = ''string_'' @ str_int k"
      by (intro exI [of _ k]) simp
  qed
  moreover have "distinct (map fst (string_literals g))"
    using assms by (simp add: pool_ok_def)
  ultimately show ?thesis
    using pool_ok_fresh [OF assms]
    unfolding exitStringLiteral_mips_eq [OF assms] steps_def pool_ok_def
    by auto
qed

lemma walk_mips_expr_steps:
  "walk_mips_expr g e = Inr (g', m) \<Longrightarrow> pool_ok g \<Longrightarrow> steps g g' (strings_expr e)"
  "walk_mips_exprs g es = Inr g'' \<Longrightarrow> pool_ok g \<Longrightarrow>
     steps g g'' (concat (map strings_expr es))"
proof (induction g e and g es arbitrary: g' m and g'' rule: walk_mips_expr_walk_mips_exprs.induct)
  case (1 g e)
  then show ?case by (auto split: sum.splits)
next
  case (2 g f args)
  then show ?case by (auto split: sum.splits)
next
  case (3 g op e)
  then show ?case by (auto split: sum.splits)
next
  case (4 g op e0 e1)
  from "4.prems" obtain g0 m0 m1 where a: "walk_mips_expr g e0 = Inr (g0, m0)"
    and b: "walk_mips_expr g0 e1 = Inr (g', m1)"
    by (auto split: sum.splits)
  have s0: "steps g g0 (strings_expr e0)" using "4.IH"(1) a "4.prems"(2) by simp
  then have "pool_ok g0" by (rule steps_pool_ok)
  then have "steps g0 g' (strings_expr e1)" using "4.IH"(2) a b by simp
  with s0 show ?case by (simp add: steps_trans)
next
  case (5 g op e0 e1)
  from "5.prems" obtain g0 m0 m1 where a: "walk_mips_expr g e0 = Inr (g0, m0)"
    and b: "walk_mips_expr g0 e1 = Inr (g', m1)"
    by (auto split: sum.splits)
  have s0: "steps g g0 (strings_expr e0)" using "5.IH"(1) a "5.prems"(2) by simp
  then have "pool_ok g0" by (rule steps_pool_ok)
  then have "steps g0 g' (strings_expr e1)" using "5.IH"(2) a b by simp
  with s0 show ?case by (simp add: steps_trans)
next
  case (6 g op e0 e1)
  from "6.prems" obtain g0 m0 m1 where a: "walk_mips_expr g e0 = Inr (g0, m0)"
    and b: "walk_mips_expr g0 e1 = Inr (g', m1)"
    by (auto split: sum.splits)
  have s0: "steps g g0 (strings_expr e0)" using "6.IH"(1) a "6.prems"(2) by simp
  then have "pool_ok g0" by (rule steps_pool_ok)
  then have "steps g0 g' (strings_expr e1)" using "6.IH"(2) a b by simp
  with s0 show ?case by (simp add: steps_trans)
next
  case (7 g n)
  then show ?case by (auto simp: steps_refl)
next
  case (8 g s)
  then show ?case
    using steps_exitStringLiteral [of g s] by (auto simp: split_beta Let_def)
next
  case (9 g s)
  then show ?case by (auto simp: steps_refl)
next
  case (10 g s)
  then show ?case by (auto simp: steps_refl)
next
  case (11 g)
  then show ?case by (auto simp: steps_refl)
next
  case (12 g e es)
  from "12.prems" obtain g0 m0 where a: "walk_mips_expr g e = Inr (g0, m0)"
    and b: "walk_mips_exprs g0 es = Inr g''"
    by (auto split: sum.splits)
  have s0: "steps g g0 (strings_expr e)" using "12.IH"(1) a "12.prems"(2) by simp
  then have "pool_ok g0" by (rule steps_pool_ok)
  then have "steps g0 g'' (concat (map strings_expr es))" using "12.IH"(2) a b by simp
  with s0 show ?case by (simp add: steps_trans)
qed

lemma endif_range_Nil: "endif_range lo hi []"
  by (simp add: endif_range_def)

lemma endif_range_mono:
  "endif_range a b L \<Longrightarrow> a' \<le> a \<Longrightarrow> b \<le> b' \<Longrightarrow> endif_range a' b' L"
  unfolding endif_range_def by (meson order_le_less_trans order_trans)

lemma endif_range_append:
  assumes "endif_range a b L1" "endif_range b c L2" "a \<le> b" "b \<le> c"
  shows "endif_range a c (L1 @ L2)"
proof -
  have "set L1 \<inter> set L2 = {}"
  proof (rule ccontr)
    assume "set L1 \<inter> set L2 \<noteq> {}"
    then obtain l where l1: "l \<in> set L1" and l2: "l \<in> set L2" by blast
    from l1 assms(1) obtain k1 where k1: "k1 \<le> b" "l = ''endif_'' @ str_int k1"
      unfolding endif_range_def by blast
    from l2 assms(2) obtain k2 where k2: "b < k2" "l = ''endif_'' @ str_int k2"
      unfolding endif_range_def by blast
    from k1(2) k2(2) have "k1 = k2" using str_int_inj by simp
    with k1(1) k2(1) show False by simp
  qed
  moreover have "endif_range a c L1" using assms(1,4) by (rule endif_range_mono [OF _ order_refl])
  moreover have "endif_range a c L2" using assms(2,3) by (rule endif_range_mono [OF _ _ order_refl])
  ultimately show ?thesis unfolding endif_range_def by auto
qed

lemma endif_range_single:
  "lo < k \<Longrightarrow> k \<le> hi \<Longrightarrow> endif_range lo hi [''endif_'' @ str_int k]"
  unfolding endif_range_def by auto

lemma walk_mips_expr_labels:
  "walk_mips_expr g e = Inr (g', Some t) \<Longrightarrow> plain_tokens_expr e \<Longrightarrow> program_labels t = []"
proof (induction e arbitrary: g g' t)
  case (AddSub op e0 e1)
  from AddSub.prems(1) obtain g0 m0 m1 where a: "walk_mips_expr g e0 = Inr (g0, m0)"
    and b: "walk_mips_expr g0 e1 = Inr (g', m1)"
    and c: "exitAddSub_mips op m0 m1 = Inr t"
    by (auto split: sum.splits)
  from c obtain t0 t1 where m: "m0 = Some t0" "m1 = Some t1"
    by (cases m0; cases m1) (auto simp: exitAddSub_mips_def get_mips_def Let_def)
  have "program_labels t0 = []" using AddSub.IH(1) a m AddSub.prems(2) by simp
  moreover have "program_labels t1 = []" using AddSub.IH(2) b m AddSub.prems(2) by simp
  ultimately show ?case using program_labels_exitAddSub c m by simp
next
  case (StringLiteral s)
  then show ?case
    using program_labels_exitStringLiteral [of g s] by (auto simp: split_beta Let_def)
next
  case (IntLiteral s)
  then show ?case by (auto simp: program_labels_exitIntLiteral)
next
  case (BoolLiteral s)
  then show ?case by (auto simp: program_labels_exitBoolLiteral)
qed (auto simp: exitParens_mips_def exitNeg_mips_def exitMulDiv_mips_def exitCompare_mips_def
      exitVariable_mips_def split: sum.splits)

lemma unique_label_endif:
  "unique_label g ''endif'' =
     (g\<lparr>label_index := label_index g + 1\<rparr>, ''endif_'' @ str_int (label_index g + 1))"
  by (simp add: unique_label_def Let_def)

lemma exitIf_mips_Some:
  "exitIf_mips g (Some c) (Some t) =
     Inr (g\<lparr>label_index := label_index g + 1\<rparr>,
          if_template c t (''endif_'' @ str_int (label_index g + 1)))"
  unfolding exitIf_mips_def get_mips_def unique_label_endif by simp

lemma exitIf_mips_None: "exitIf_mips g None b = Inl AttributeError"
  "exitIf_mips g m None = Inl AttributeError"
  unfolding exitIf_mips_def get_mips_def by (simp_all split: option.splits)

lemma exitIf_mips_Inr:
  assumes "exitIf_mips g m b = Inr (g', im)"
  shows "\<exists>c t. m = Some c \<and> b = Some t \<and> g' = g\<lparr>label_index := label_index g + 1\<rparr>
           \<and> im = if_template c t (''endif_'' @ str_int (label_index g + 1))"
proof (cases m)
  case None
  with assms show ?thesis by (simp add: exitIf_mips_None)
next
  case (Some c)
  show ?thesis
  proof (cases b)
    case None
    with assms show ?thesis by (simp add: exitIf_mips_None)
  next
    case (Some t)
    with \<open>m = Some c\<close> assms show ?thesis by (simp only: exitIf_mips_Some) simp
  qed
qed

lemma exitBlock_mips_Nil: "exitBlock_mips [] = Inr []"
  by (simp add: exitBlock_mips_def)

lemma exitBlock_mips_Cons:
  assumes "exitBlock_mips (m # ms) = Inr bm"
  shows "\<exists>t bm'. m = Some t \<and> exitBlock_mips ms = Inr bm'
           \<and> program_labels bm = program_labels t @ program_labels bm'"
proof (cases m)
  case None
  with assms show ?thesis by (simp add: exitBlock_mips_def get_mips_def)
next
  case (Some t)
  show ?thesis
  proof (cases "all_mips ms")
    case (Inl x)
    with Some assms show ?thesis by (simp add: exitBlock_mips_def get_mips_def)
  next
    case (Inr ts)
    with Some assms have bm: "bm = join newline (t # ts)"
      by (simp add: exitBlock_mips_def get_mips_def)
    have "exitBlock_mips ms = Inr (join newline ts)" using Inr by (simp add: exitBlock_mips_def)
    moreover have "program_labels bm = program_labels t @ program_labels (join newline ts)"
      unfolding bm program_labels_join by simp
    ultimately show ?thesis using Some by blast
  qed
qed

lemma exitIf_mips_steps:
  assumes "exitIf_mips g m b = Inr (g', im)" "pool_ok g"
  shows "steps g g' []"
proof -
  from exitIf_mips_Inr [OF assms(1)] have "g' = fst (unique_label g ''endif'')"
    by (auto simp: unique_label_endif)
  then show ?thesis using steps_unique_label [OF assms(2)] by simp
qed

lemma steps_trans_Nil: "steps g g1 a \<Longrightarrow> steps g1 g2 [] \<Longrightarrow> steps g g2 a"
  using steps_trans [of g g1 a g2 "[]"] by simp

lemma walk_mips_statement_steps:
  "walk_mips_statement ty g s = Inr (g', m) \<Longrightarrow> pool_ok g \<Longrightarrow>
     steps g g' (strings_statement s)"
  "walk_mips_statements ty g ss = Inr (g'', ms) \<Longrightarrow> pool_ok g \<Longrightarrow>
     steps g g'' (concat (map strings_statement ss))"
proof (induction ty g s and ty g ss arbitrary: g' m and g'' ms
    rule: walk_mips_statement_walk_mips_statements.induct)
  case (1 ty g n e)
  then show ?case by (auto split: sum.splits dest: walk_mips_expr_steps(1))
next
  case (2 ty g e b)
  from "2.prems"(1) obtain g1 m1 ms1 where a: "walk_mips_expr g e = Inr (g1, m1)"
    and b: "walk_mips_statements ty g1 b = Inr (g', ms1)"
    by (auto split: sum.splits)
  have s1: "steps g g1 (strings_expr e)" using walk_mips_expr_steps(1) [OF a "2.prems"(2)] .
  then have "pool_ok g1" by (rule steps_pool_ok)
  then have "steps g1 g' (concat (map strings_statement b))" using "2.IH" a b by simp
  with s1 show ?case by (simp add: steps_trans)
next
  case (3 ty g e b0 b1)
  from "3.prems"(1) obtain g1 m1 g0 ms0 bm0 where a: "walk_mips_expr g e = Inr (g1, m1)"
    and b: "walk_mips_statements ty g1 b0 = Inr (g0, ms0)"
    and c: "exitBlock_mips ms0 = Inr bm0"
    by (auto split: sum.splits)
  have s1: "steps g g1 (strings_expr e)" using walk_mips_expr_steps(1) [OF a "3.prems"(2)] .
  then have p1: "pool_ok g1" by (rule steps_pool_ok)
  then have s0: "steps g1 g0 (concat (map strings_statement b0))" using "3.IH"(1) a b by simp
  then have p0: "pool_ok g0" by (rule steps_pool_ok)
  show ?case
  proof (cases b1)
    case None
    with "3.prems"(1) a b c obtain im where "exitIf_mips g0 m1 (Some bm0) = Inr (g', im)"
      by (auto split: sum.splits)
    then have "steps g0 g' []" using p0 by (rule exitIf_mips_steps)
    with s0 have "steps g1 g' (concat (map strings_statement b0))" by (rule steps_trans_Nil)
    with s1 have "steps g g' (strings_expr e @ concat (map strings_statement b0))"
      by (rule steps_trans)
    with None show ?thesis by simp
  next
    case (Some b)
    with "3.prems"(1) a b c obtain g2 ms1 bm1 im
      where d: "walk_mips_statements ty g0 b = Inr (g2, ms1)"
        and e: "exitIf_mips g2 m1 (Some bm0) = Inr (g', im)"
      by (auto split: sum.splits)
    have s2: "steps g0 g2 (concat (map strings_statement b))"
      using "3.IH"(2) a b c Some d p0 by simp
    then have "pool_ok g2" by (rule steps_pool_ok)
    with e have "steps g2 g' []" by (rule exitIf_mips_steps)
    with s2 have "steps g0 g' (concat (map strings_statement b))"
      by (rule steps_trans_Nil)
    with s0 have "steps g1 g' (concat (map strings_statement b0) @ concat (map strings_statement b))"
      by (rule steps_trans)
    with s1 have "steps g g' (strings_expr e @ concat (map strings_statement b0)
        @ concat (map strings_statement b))"
      by (rule steps_trans)
    with Some show ?thesis by simp
  qed
next
  case (4 ty g e)
  then show ?case by (auto split: sum.splits dest: walk_mips_expr_steps(1))
next
  case (5 ty g eo)
  then show ?case
    by (auto split: sum.splits option.splits dest: walk_mips_expr_steps(1) simp: steps_refl)
next
  case (6 ty g f args)
  then show ?case by (auto split: sum.splits dest: walk_mips_expr_steps(2))
next
  case (7 ty g)
  then show ?case by (simp add: steps_refl)
next
  case (8 ty g s ss)
  from "8.prems"(1) obtain g1 m1 ms1 where a: "walk_mips_statement ty g s = Inr (g1, m1)"
    and b: "walk_mips_statements ty g1 ss = Inr (g'', ms1)"
    by (auto split: sum.splits)
  have s1: "steps g g1 (strings_statement s)" using "8.IH"(1) a "8.prems"(2) by simp
  then have "pool_ok g1" by (rule steps_pool_ok)
  then have "steps g1 g'' (concat (map strings_statement ss))" using "8.IH"(2) a b by simp
  with s1 show ?case by (simp add: steps_trans)
qed

lemma walk_mips_statement_labels:
  "walk_mips_statement ty g s = Inr (g', Some t) \<Longrightarrow> pool_ok g \<Longrightarrow>
     plain_tokens_statement s \<Longrightarrow>
     endif_range (label_index g) (label_index g') (program_labels t)
     \<and> length (program_labels t) = emitted_ifs s"
  "walk_mips_statements ty g ss = Inr (g'', ms) \<Longrightarrow> pool_ok g \<Longrightarrow>
     list_all plain_tokens_statement ss \<Longrightarrow> exitBlock_mips ms = Inr bm \<Longrightarrow>
     endif_range (label_index g) (label_index g'') (program_labels bm)
     \<and> length (program_labels bm) = sum_list (map emitted_ifs ss)"
proof (induction ty g s and ty g ss arbitrary: g' t and g'' ms bm
    rule: walk_mips_statement_walk_mips_statements.induct)
  case (1 ty g n e)
  then show ?case by (auto simp: exitAssignment_mips_def split: sum.splits)
next
  case (2 ty g e b)
  then show ?case by (auto simp: exitWhile_mips_def split: sum.splits)
next
  case (3 ty g e b0 b1)
  from "3.prems"(1) obtain g1 m1 g0 ms0 bm0 where a: "walk_mips_expr g e = Inr (g1, m1)"
    and b: "walk_mips_statements ty g1 b0 = Inr (g0, ms0)"
    and c: "exitBlock_mips ms0 = Inr bm0"
    by (auto split: sum.splits)
  have s1: "steps g g1 (strings_expr e)" using walk_mips_expr_steps(1) [OF a "3.prems"(2)] .
  then have p1: "pool_ok g1" by (rule steps_pool_ok)
  have s0: "steps g1 g0 (concat (map strings_statement b0))"
    using walk_mips_statement_steps(2) [OF b p1] .
  then have p0: "pool_ok g0" by (rule steps_pool_ok)
  have r0: "endif_range (label_index g1) (label_index g0) (program_labels bm0)
      \<and> length (program_labels bm0) = sum_list (map emitted_ifs b0)"
    using "3.IH"(1) a b c p1 "3.prems"(3) by simp
  have "\<exists>g2. label_index g0 \<le> label_index g2
        \<and> exitIf_mips g2 m1 (Some bm0) = Inr (g', t)"
  proof (cases b1)
    case None
    with "3.prems"(1) a b c have "exitIf_mips g0 m1 (Some bm0) = Inr (g', t)"
      by (auto split: sum.splits)
    then show ?thesis by auto
  next
    case (Some b)
    with "3.prems"(1) a b c obtain g2 ms1
      where d: "walk_mips_statements ty g0 b = Inr (g2, ms1)"
        and e: "exitIf_mips g2 m1 (Some bm0) = Inr (g', t)"
      by (auto split: sum.splits)
    have "steps g0 g2 (concat (map strings_statement b))"
      using walk_mips_statement_steps(2) [OF d p0] .
    then have "label_index g0 \<le> label_index g2" by (rule steps_mono)
    with e show ?thesis by auto
  qed
  then obtain g2 where m2: "label_index g0 \<le> label_index g2"
    and e: "exitIf_mips g2 m1 (Some bm0) = Inr (g', t)" by blast
  from exitIf_mips_Inr [OF e] obtain c where mc: "m1 = Some c"
    and g': "g' = g2\<lparr>label_index := label_index g2 + 1\<rparr>"
    and t: "t = if_template c bm0 (''endif_'' @ str_int (label_index g2 + 1))"
    by auto
  have "program_labels c = []"
    using walk_mips_expr_labels a mc "3.prems"(3) by simp
  then have pl: "program_labels t =
      program_labels bm0 @ [''endif_'' @ str_int (label_index g2 + 1)]"
    unfolding t using program_labels_if_template [OF endif_label_plain] by simp
  have li: "label_index g' = label_index g2 + 1" using g' by simp
  have m1: "label_index g \<le> label_index g1" using s1 by (rule steps_mono)
  have m0: "label_index g1 \<le> label_index g0" using s0 by (rule steps_mono)
  have "endif_range (label_index g0) (label_index g')
      [''endif_'' @ str_int (label_index g2 + 1)]"
    using m2 li by (intro endif_range_single) simp_all
  with r0 have "endif_range (label_index g1) (label_index g') (program_labels t)"
    unfolding pl using m0 m2 li by (intro endif_range_append [of _ "label_index g0"]) simp_all
  then have "endif_range (label_index g) (label_index g') (program_labels t)"
    using m1 by (rule endif_range_mono) simp
  with r0 pl show ?case by simp
next
  case (4 ty g e)
  from "4.prems"(1) obtain m1 where a: "walk_mips_expr g e = Inr (g', m1)"
    and b: "exitPrint_mips (ty e) m1 = Inr t"
    by (auto split: sum.splits)
  from b obtain c where mc: "m1 = Some c"
    by (cases m1) (auto simp: exitPrint_mips_def get_mips_def split: if_splits)
  have "program_labels c = []" using walk_mips_expr_labels a mc "4.prems"(3) by simp
  then have "program_labels t = []" using program_labels_exitPrint b mc by simp
  then show ?case by (simp add: endif_range_Nil)
next
  case (5 ty g eo)
  then show ?case by (auto split: sum.splits option.splits)
next
  case (6 ty g f args)
  then show ?case by (auto split: sum.splits)
next
  case (7 ty g)
  from "7.prems"(1) have g: "g'' = g" and ms: "ms = []" by simp_all
  from "7.prems"(4) have "bm = []" unfolding ms exitBlock_mips_Nil by simp
  then show ?case using g by (simp add: program_labels_Nil endif_range_Nil)
next
  case (8 ty g s ss)
  from "8.prems"(1) obtain g1 m1 ms1 where a: "walk_mips_statement ty g s = Inr (g1, m1)"
    and b: "walk_mips_statements ty g1 ss = Inr (g'', ms1)" and ms: "ms = m1 # ms1"
    by (auto split: sum.splits)
  from exitBlock_mips_Cons [OF "8.prems"(4) [unfolded ms]] obtain t bm'
    where mt: "m1 = Some t" and bm': "exitBlock_mips ms1 = Inr bm'"
      and pl: "program_labels bm = program_labels t @ program_labels bm'" by blast
  have s1: "steps g g1 (strings_statement s)"
    using walk_mips_statement_steps(1) [OF a "8.prems"(2)] .
  then have p1: "pool_ok g1" by (rule steps_pool_ok)
  have s2: "steps g1 g'' (concat (map strings_statement ss))"
    using walk_mips_statement_steps(2) [OF b p1] .
  have r1: "endif_range (label_index g) (label_index g1) (program_labels t)
      \<and> length (program_labels t) = emitted_ifs s"
    using "8.IH"(1) a mt "8.prems"(2,3) by simp
  have r2: "endif_range (label_index g1) (label_index g'') (program_labels bm')
      \<and> length (program_labels bm') = sum_list (map emitted_ifs ss)"
    using "8.IH"(2) a b bm' p1 "8.prems"(3) by simp
  have "endif_range (label_index g) (label_index g'') (program_labels bm)"
    unfolding pl using r1 r2 steps_mono [OF s1] steps_mono [OF s2]
    by (intro endif_range_append [of _ "label_index g1"]) simp_all
  with r1 r2 pl show ?case by simp
qed

lemma walk_mips_varBlock_steps:
  "walk_mips_varBlock g vds = Inr g' \<Longrightarrow> pool_ok g \<Longrightarrow>
     steps g g' (concat (map strings_varDec vds))"
proof (induction g vds arbitrary: g' rule: walk_mips_varBlock.induct)
  case (1 g)
  then show ?case by (simp add: steps_refl)
next
  case (2 g n t init vds)
  show ?case
  proof (cases init)
    case None
    with 2 show ?thesis by simp
  next
    case (Some e)
    with "2.prems"(1) obtain g1 m1 where a: "walk_mips_expr g e = Inr (g1, m1)"
      and b: "walk_mips_varBlock g1 vds = Inr g'"
      by (auto split: sum.splits)
    have s1: "steps g g1 (strings_expr e)" using walk_mips_expr_steps(1) [OF a "2.prems"(2)] .
    then have "pool_ok g1" by (rule steps_pool_ok)
    then have "steps g1 g' (concat (map strings_varDec vds))" using "2.IH"(2) Some a b by simp
    with s1 Some show ?thesis by (simp add: steps_trans)
  qed
qed

lemma walk_mips_body_steps:
  assumes "walk_mips_body ty g bd = Inr (g', m)" "pool_ok g"
  shows "steps g g' (strings_body bd)"
proof -
  obtain vds b where bd: "bd = Body vds b" by (cases bd)
  from assms(1) obtain g1 ms where a: "walk_mips_varBlock g vds = Inr g1"
    and b: "walk_mips_statements ty g1 b = Inr (g', ms)"
    unfolding bd by (auto split: sum.splits)
  have s1: "steps g g1 (concat (map strings_varDec vds))"
    using walk_mips_varBlock_steps [OF a assms(2)] .
  then have "pool_ok g1" by (rule steps_pool_ok)
  then have "steps g1 g' (concat (map strings_statement b))"
    using walk_mips_statement_steps(2) [OF b] by simp
  with s1 show ?thesis unfolding bd by (simp add: steps_trans)
qed

lemma walk_mips_body_labels:
  assumes "walk_mips_body ty g (Body vds b) = Inr (g', m)" "pool_ok g"
    "plain_tokens_body (Body vds b)"
  shows "endif_range (label_index g) (label_index g') (program_labels m)
     \<and> length (program_labels m) = sum_list (map emitted_ifs b)"
proof -
  from assms(1) obtain g1 ms where a: "walk_mips_varBlock g vds = Inr g1"
    and b: "walk_mips_statements ty g1 b = Inr (g', ms)"
    and c: "exitBlock_mips ms = Inr m"
    by (auto simp: exitBody_mips_def get_mips_def split: sum.splits)
  have s1: "steps g g1 (concat (map strings_varDec vds))"
    using walk_mips_varBlock_steps [OF a assms(2)] .
  then have p1: "pool_ok g1" by (rule steps_pool_ok)
  have "endif_range (label_index g1) (label_index g') (program_labels m)
     \<and> length (program_labels m) = sum_list (map emitted_ifs b)"
    using walk_mips_statement_labels(2) [OF b p1 _ c] assms(3) by simp
  then show ?thesis
    using steps_mono [OF s1] endif_range_mono [of "label_index g1" "label_index g'"]
    by auto
qed

lemma walk_mips_funcDefs_steps:
  "walk_mips_funcDefs ty g fds = Inr g' \<Longrightarrow> pool_ok g \<Longrightarrow>
     steps g g' (concat (map strings_funcDef fds))"
proof (induction ty g fds arbitrary: g' rule: walk_mips_funcDefs.induct)
  case (1 ty g)
  then show ?case by (simp add: steps_refl)
next
  case (2 ty g f ps rt bd fds)
  from "2.prems"(1) obtain g1 m1 where a: "walk_mips_body ty g bd = Inr (g1, m1)"
    and b: "walk_mips_funcDefs ty g1 fds = Inr g'"
    by (auto split: sum.splits)
  have s1: "steps g g1 (strings_body bd)" using walk_mips_body_steps [OF a "2.prems"(2)] .
  then have "pool_ok g1" by (rule steps_pool_ok)
  then have "steps g1 g' (concat (map strings_funcDef fds))" using "2.IH" a b by simp
  with s1 show ?case by (simp add: steps_trans)
qed

lemma pool_ok_enterMain:
  "enterMain_mips ms g = Inr g' \<Longrightarrow>
     label_index g' = label_index g \<and> string_literals g' = string_literals g"
  by (auto simp: enterMain_mips_def split: option.splits)

lemma walk_mips_script_parts:
  assumes "walk_mips_script ty ms g (Script fds (Body vds b)) = Inr (g', text)" "pool_ok g"
  shows "\<exists>g0 g1 m. steps g g0 (concat (map strings_funcDef fds))
            \<and> label_index g1 = label_index g0 \<and> string_literals g1 = string_literals g0
            \<and> walk_mips_body ty g1 (Body vds b) = Inr (g', m)
            \<and> text = script_template (join newline (string_literal_lines g')) m"
proof -
  from assms(1) obtain g0 g1 m where a: "walk_mips_funcDefs ty g fds = Inr g0"
    and b: "enterMain_mips ms g0 = Inr g1"
    and c: "walk_mips_body ty g1 (Body vds b) = Inr (g', m)"
    and d: "text = script_template (join newline (string_literal_lines g')) m"
    by (auto simp: exitMain_mips_def exitScript_mips_def get_mips_def
        simp del: walk_mips_body.simps split: sum.splits)
  show ?thesis
    using walk_mips_funcDefs_steps [OF a assms(2)] pool_ok_enterMain [OF b] c d by blast
qed

lemma walk_mips_script_steps:
  assumes "walk_mips_script ty ms g tree = Inr (g', text)" "pool_ok g"
  shows "steps g g' (strings_script tree)"
proof -
  obtain fds vds b where tree: "tree = Script fds (Body vds b)"
    by (cases tree) (metis body.exhaust)
  from walk_mips_script_parts [OF assms(1) [unfolded tree] assms(2)]
  obtain g0 g1 m where s0: "steps g g0 (concat (map strings_funcDef fds))"
    and e: "label_index g1 = label_index g0" "string_literals g1 = string_literals g0"
    and c: "walk_mips_body ty g1 (Body vds b) = Inr (g', m)" by blast
  have p1: "pool_ok g1" using steps_pool_ok [OF s0] e by (simp add: pool_ok_def)
  have "steps g1 g' (strings_body (Body vds b))" using walk_mips_body_steps [OF c p1] .
  then have "steps g0 g' (strings_body (Body vds b))" using e by (simp add: steps_def)
  with s0 show ?thesis unfolding tree using steps_trans by fastforce
qed

lemma plain_strings_expr:
  "plain_tokens_expr e \<Longrightarrow> s \<in> set (strings_expr e) \<Longrightarrow> CHR 0x0A \<notin> set s"
  by (induction e) (auto simp: list_all_iff)

lemma plain_strings_statement:
  "plain_tokens_statement st \<Longrightarrow> s \<in> set (strings_statement st) \<Longrightarrow> CHR 0x0A \<notin> set s"
  by (induction st)
    (auto simp: list_all_iff split: option.splits dest: plain_strings_expr)

lemma plain_strings_body:
  "plain_tokens_body bd \<Longrightarrow> s \<in> set (strings_body bd) \<Longrightarrow> CHR 0x0A \<notin> set s"
proof (cases bd)
  case (Body vds b)
  assume p: "plain_tokens_body bd" and s: "s \<in> set (strings_body bd)"
  from s Body consider vd where "vd \<in> set vds" "s \<in> set (strings_varDec vd)"
    | st where "st \<in> set b" "s \<in> set (strings_statement st)" by auto
  then show ?thesis
  proof cases
    case 1
    obtain n t init where vd: "vd = VarDec n t init" by (cases vd)
    with 1 p Body show ?thesis
      by (auto simp: list_all_iff split: option.splits dest!: bspec dest: plain_strings_expr)
  next
    case 2
    with p Body show ?thesis by (auto simp: list_all_iff dest: plain_strings_statement)
  qed
qed

lemma plain_strings_script:
  "plain_tokens_script tree \<Longrightarrow> s \<in> set (strings_script tree) \<Longrightarrow> CHR 0x0A \<notin> set s"
proof (cases tree)
  case (Script fds bd)
  assume p: "plain_tokens_script tree" and s: "s \<in> set (strings_script tree)"
  from s Script consider fd where "fd \<in> set fds" "s \<in> set (strings_funcDef fd)"
    | "s \<in> set (strings_body bd)" by auto
  then show ?thesis
  proof cases
    case 1
    obtain f ps rt fb where fd: "fd = FuncDef f ps rt fb" by (cases fd)
    with 1 p Script have "plain_tokens_body fb" "s \<in> set (strings_body fb)"
      by (auto simp: list_all_iff)
    then show ?thesis by (rule plain_strings_body)
  next
    case 2
    with p Script show ?thesis by (auto dest: plain_strings_body)
  qed
qed

lemma program_labels_pool:
  assumes "pool_ok g" "\<forall>s \<in> set (map snd (string_literals g)). CHR 0x0A \<notin> set s"
  shows "program_labels (join newline (string_literal_lines g)) = map fst (string_literals g)"
proof -
  have "\<forall>(l, s) \<in> set (string_literals g).
      CHR 0x0A \<notin> set l \<and> CHR '':'' \<notin> set l \<and> CHR 0x0A \<notin> set s"
  proof (clarify, intro conjI)
    fix l s assume ls: "(l, s) \<in> set (string_literals g)"
    then have "l \<in> set (map fst (string_literals g))" by force
    then obtain k where l: "l = ''string_'' @ str_int k"
      using assms(1) unfolding pool_ok_def by blast
    show "CHR 0x0A \<notin> set l" unfolding l by (rule string_label_plain)
    show "CHR '':'' \<notin> set l" unfolding l by (rule string_label_plain)
    from ls have "s \<in> set (map snd (string_literals g))" by force
    then show "CHR 0x0A \<notin> set s" using assms(2) by blast
  qed
  then show ?thesis
    unfolding program_labels_join string_literal_lines_def
    by (rule program_labels_data_lines)
qed

lemma generated_labels_distinct:
  assumes "pool_ok g" "endif_range lo hi L"
  shows "distinct ([''true_string'', ''false_string''] @ map fst (string_literals g)
       @ [''true_false_string'', ''choose_false'', ''end_true_false_string'', ''main'']
       @ L @ [''halt''])"
proof -
  define K where "K = map fst (string_literals g)"
  have k: "\<And>l. l \<in> set K \<Longrightarrow> take 4 l = ''stri''"
    using assms(1) unfolding pool_ok_def K_def by auto
  have e: "\<And>l. l \<in> set L \<Longrightarrow> take 4 l = ''endi''"
    using assms(2) unfolding endif_range_def by auto
  have d1: "distinct K" using assms(1) by (simp add: pool_ok_def K_def)
  have d2: "distinct L" using assms(2) by (simp add: endif_range_def)
  have kl: "set K \<inter> set L = {}"
  proof (rule ccontr)
    assume "set K \<inter> set L \<noteq> {}"
    then obtain l where "l \<in> set K" "l \<in> set L" by blast
    then have "''stri'' = ''endi''" using k e by metis
    then show False by simp
  qed
  have fk: "''true_string'' \<notin> set K" "''false_string'' \<notin> set K"
    "''true_false_string'' \<notin> set K" "''choose_false'' \<notin> set K"
    "''end_true_false_string'' \<notin> set K" "''main'' \<notin> set K" "''halt'' \<notin> set K"
    using k by fastforce+
  have fl: "''true_string'' \<notin> set L" "''false_string'' \<notin> set L"
    "''true_false_string'' \<notin> set L" "''choose_false'' \<notin> set L"
    "''end_true_false_string'' \<notin> set L" "''main'' \<notin> set L" "''halt'' \<notin> set L"
    using e by fastforce+
  have "distinct ([''true_string'', ''false_string''] @ K
       @ [''true_false_string'', ''choose_false'', ''end_true_false_string'', ''main'']
       @ L @ [''halt''])"
    using d1 d2 kl fk fl by simp
  then show ?thesis unfolding K_def .
qed

lemma program_labels_script:
  assumes "walk_mips_script ty ms MIPSGenerator_init tree = Inr (g, text)"
    and "plain_tokens_script tree"
  shows "\<exists>L. program_labels text =
        [''true_string'', ''false_string''] @ map fst (string_literals g)
          @ [''true_false_string'', ''choose_false'', ''end_true_false_string'', ''main'']
          @ L @ [''halt'']
      \<and> length L = emitted_ifs_script tree
      \<and> distinct (program_labels text)"
proof -
  obtain fds vds b where tree: "tree = Script fds (Body vds b)"
    by (cases tree) (metis body.exhaust)
  from walk_mips_script_parts [OF assms(1) [unfolded tree] pool_ok_init]
  obtain g0 g1 m where s0: "steps MIPSGenerator_init g0 (concat (map strings_funcDef fds))"
    and e: "label_index g1 = label_index g0" "string_literals g1 = string_literals g0"
    and c: "walk_mips_body ty g1 (Body vds b) = Inr (g, m)"
    and t: "text = script_template (join newline (string_literal_lines g)) m" by blast
  have p1: "pool_ok g1" using steps_pool_ok [OF s0] e by (simp add: pool_ok_def)
  have st: "steps MIPSGenerator_init g (strings_script tree)"
    using walk_mips_script_steps [OF assms(1) pool_ok_init] .
  then have pg: "pool_ok g" by (rule steps_pool_ok)
  have "map snd (string_literals g) = strings_script tree"
    using st by (simp add: steps_def MIPSGenerator_init_def)
  then have "\<forall>s \<in> set (map snd (string_literals g)). CHR 0x0A \<notin> set s"
    using plain_strings_script [OF assms(2)] by simp
  then have data: "program_labels (join newline (string_literal_lines g)) =
      map fst (string_literals g)"
    using program_labels_pool [OF pg] by simp
  have r: "endif_range (label_index g1) (label_index g) (program_labels m)
     \<and> length (program_labels m) = sum_list (map emitted_ifs b)"
    using walk_mips_body_labels [OF c p1] assms(2) unfolding tree by simp
  have pl: "program_labels text =
        [''true_string'', ''false_string''] @ map fst (string_literals g)
          @ [''true_false_string'', ''choose_false'', ''end_true_false_string'', ''main'']
          @ program_labels m @ [''halt'']"
    unfolding t program_labels_script_template data ..
  moreover have "distinct (program_labels text)"
    unfolding pl using generated_labels_distinct [OF pg] r by blast
  moreover have "length (program_labels m) = emitted_ifs_script tree"
    using r unfolding tree by simp
  ultimately show ?thesis by blast
qed

subsection \<open>Labels, printing, binary operators and string literals\<close>

lemma script_template_text:
  \<open>script_template sl m =
          ''.data\<newline>'' @
          ''\<newline>'' @
          ''true_string: .asciiz "true"\<newline>'' @
          ''false_string: .asciiz "false"\<newline>'' @
          ''    \<newline>'' @ sl @
          ''\<newline>'' @
          ''\<newline>'' @
          ''.text\<newline>'' @
          ''\<newline>'' @
          ''true_false_string:\<newline>'' @
          ''beq    $t0 $zero choose_false\<newline>'' @
          ''la     $a0 true_string\<newline>'' @
          ''j      end_true_false_string\<newline>'' @
          ''choose_false:\<newline>'' @
          ''la     $a0 false_string\<newline>'' @
          ''end_true_false_string:\<newline>'' @
          ''jr     $ra\<newline>'' @
          ''\<newline>'' @
          ''main: \<newline>'' @
          ''\<newline>'' @ m @
          ''\<newline>'' @
          ''\<newline>'' @
          ''halt:\<newline>'' @
          ''\<newline>'' @
          ''li $v0 10\<newline>'' @
          ''syscall\<newline>''\<close>
  by (simp add: script_template_def text_lines_def newline_def)

text \<open>
  C7. \<open>unique_label(base)\<close> returns the base, an underscore and the decimal text of the
  counter, which it has increased by one; the labels that any sequence of calls returns,
  with any bases and from any state of the generator, are pairwise distinct texts. In the
  program that a walk of a fresh generator produces, the labels are the seven of the
  envelope, the keys of the string pool and one \<open>endif\<close> label for each emitted if
  statement, and no two of them are equal.
\<close>

theorem unique_label_distinct:
  "snd (unique_label g base) = base @ ''_'' @ str_int (label_index g + 1)
   \<and> label_index (fst (unique_label g base)) = label_index g + 1
   \<and> distinct (snd (unique_labels g bases))
   \<and> (walk_mips_script ty ms MIPSGenerator_init tree = Inr (g', text) \<longrightarrow>
        plain_tokens_script tree \<longrightarrow>
        (\<exists>L. program_labels text =
            [''true_string'', ''false_string''] @ map fst (string_literals g')
              @ [''true_false_string'', ''choose_false'', ''end_true_false_string'', ''main'']
              @ L @ [''halt'']
          \<and> length L = emitted_ifs_script tree
          \<and> distinct (program_labels text)))"
  using unique_labels_distinct [of g bases] program_labels_script [of ty ms tree "g'" "text"]
  by (simp add: unique_label_def Let_def)

theorem unique_label_distinct_witness:
  \<open>walk_mips_script (\<lambda>e. String_t) (Some 1) MIPSGenerator_init
      (Script []
        (Body []
          [If_stmt (BoolLiteral ''true'') [Print (StringLiteral ''"a"'')] None,
           If_stmt (BoolLiteral ''false'') [Print (StringLiteral ''"a"'')] None])) =
     Inr (\<lparr>label_index = 3,
            string_literals = [(''string_0'', ''"a"''), (''string_2'', ''"a"'')],
            gen_current_scope = Some 1\<rparr>,
          ''.data\<newline>'' @
          ''\<newline>'' @
          ''true_string: .asciiz "true"\<newline>'' @
          ''false_string: .asciiz "false"\<newline>'' @
          ''    \<newline>'' @
          ''string_0: .asciiz "a"\<newline>'' @
          ''string_2: .asciiz "a"\<newline>'' @
          ''\<newline>'' @
          ''.text\<newline>'' @
          ''\<newline>'' @
          ''true_false_string:\<newline>'' @
          ''beq    $t0 $zero choose_false\<newline>'' @
          ''la     $a0 true_string\<newline>'' @
          ''j      end_true_false_string\<newline>'' @
          ''choose_false:\<newline>'' @
          ''la     $a0 false_string\<newline>'' @
          ''end_true_false_string:\<newline>'' @
          ''jr     $ra\<newline>'' @
          ''\<newline>'' @
          ''main: \<newline>'' @
          ''\<newline>'' @
          ''li     $t0 1\<newline>'' @
          ''li     $t1 0\<newline>'' @
          ''beq    $t0 $t1 endif_1\<newline>'' @
          ''la     $t0 string_0\<newline>'' @
          ''move   $a0 $t0\<newline>'' @
          ''li     $v0 4\<newline>'' @
          ''syscall\<newline>'' @
          ''\<newline>'' @
          ''endif_1:\<newline>'' @
          ''\<newline>'' @
          ''li     $t0 0\<newline>'' @
          ''li     $t1 0\<newline>'' @
          ''beq    $t0 $t1 endif_3\<newline>'' @
          ''la     $t0 string_2\<newline>'' @
          ''move   $a0 $t0\<newline>'' @
          ''li     $v0 4\<newline>'' @
          ''syscall\<newline>'' @
          ''\<newline>'' @
          ''endif_3:\<newline>'' @
          ''\<newline>'' @
          ''\<newline>'' @
          ''halt:\<newline>'' @
          ''\<newline>'' @
          ''li $v0 10\<newline>'' @
          ''syscall\<newline>'')
   \<and> distinct (program_labels (
          ''.data\<newline>'' @
          ''\<newline>'' @
          ''true_string: .asciiz "true"\<newline>'' @
          ''false_string: .asciiz "false"\<newline>'' @
          ''    \<newline>'' @
          ''string_0: .asciiz "a"\<newline>'' @
          ''string_2: .asciiz "a"\<newline>'' @
          ''\<newline>'' @
          ''.text\<newline>'' @
          ''\<newline>'' @
          ''true_false_string:\<newline>'' @
          ''beq    $t0 $zero choose_false\<newline>'' @
          ''la     $a0 true_string\<newline>'' @
          ''j      end_true_false_string\<newline>'' @
          ''choose_false:\<newline>'' @
          ''la     $a0 false_string\<newline>'' @
          ''end_true_false_string:\<newline>'' @
          ''jr     $ra\<newline>'' @
          ''\<newline>'' @
          ''main: \<newline>'' @
          ''\<newline>'' @
          ''li     $t0 1\<newline>'' @
          ''li     $t1 0\<newline>'' @
          ''beq    $t0 $t1 endif_1\<newline>'' @
          ''la     $t0 string_0\<newline>'' @
          ''move   $a0 $t0\<newline>'' @
          ''li     $v0 4\<newline>'' @
          ''syscall\<newline>'' @
          ''\<newline>'' @
          ''endif_1:\<newline>'' @
          ''\<newline>'' @
          ''li     $t0 0\<newline>'' @
          ''li     $t1 0\<newline>'' @
          ''beq    $t0 $t1 endif_3\<newline>'' @
          ''la     $t0 string_2\<newline>'' @
          ''move   $a0 $t0\<newline>'' @
          ''li     $v0 4\<newline>'' @
          ''syscall\<newline>'' @
          ''\<newline>'' @
          ''endif_3:\<newline>'' @
          ''\<newline>'' @
          ''\<newline>'' @
          ''halt:\<newline>'' @
          ''\<newline>'' @
          ''li $v0 10\<newline>'' @
          ''syscall\<newline>''))\<close>
proof -
  have w: \<open>walk_mips_script (\<lambda>e. String_t) (Some 1) MIPSGenerator_init
      (Script []
        (Body []
          [If_stmt (BoolLiteral ''true'') [Print (StringLiteral ''"a"'')] None,
           If_stmt (BoolLiteral ''false'') [Print (StringLiteral ''"a"'')] None])) =
     Inr (\<lparr>label_index = 3,
            string_literals = [(''string_0'', ''"a"''), (''string_2'', ''"a"'')],
            gen_current_scope = Some 1\<rparr>,
          ''.data\<newline>'' @
          ''\<newline>'' @
          ''true_string: .asciiz "true"\<newline>'' @
          ''false_string: .asciiz "false"\<newline>'' @
          ''    \<newline>'' @
          ''string_0: .asciiz "a"\<newline>'' @
          ''string_2: .asciiz "a"\<newline>'' @
          ''\<newline>'' @
          ''.text\<newline>'' @
          ''\<newline>'' @
          ''true_false_string:\<newline>'' @
          ''beq    $t0 $zero choose_false\<newline>'' @
          ''la     $a0 true_string\<newline>'' @
          ''j      end_true_false_string\<newline>'' @
          ''choose_false:\<newline>'' @
          ''la     $a0 false_string\<newline>'' @
          ''end_true_false_string:\<newline>'' @
          ''jr     $ra\<newline>'' @
          ''\<newline>'' @
          ''main: \<newline>'' @
          ''\<newline>'' @
          ''li     $t0 1\<newline>'' @
          ''li     $t1 0\<newline>'' @
          ''beq    $t0 $t1 endif_1\<newline>'' @
          ''la     $t0 string_0\<newline>'' @
          ''move   $a0 $t0\<newline>'' @
          ''li     $v0 4\<newline>'' @
          ''syscall\<newline>'' @
          ''\<newline>'' @
          ''endif_1:\<newline>'' @
          ''\<newline>'' @
          ''li     $t0 0\<newline>'' @
          ''li     $t1 0\<newline>'' @
          ''beq    $t0 $t1 endif_3\<newline>'' @
          ''la     $t0 string_2\<newline>'' @
          ''move   $a0 $t0\<newline>'' @
          ''li     $v0 4\<newline>'' @
          ''syscall\<newline>'' @
          ''\<newline>'' @
          ''endif_3:\<newline>'' @
          ''\<newline>'' @
          ''\<newline>'' @
          ''halt:\<newline>'' @
          ''\<newline>'' @
          ''li $v0 10\<newline>'' @
          ''syscall\<newline>'')\<close>
    by code_simp
  have p: \<open>plain_tokens_script
      (Script []
        (Body []
          [If_stmt (BoolLiteral ''true'') [Print (StringLiteral ''"a"'')] None,
           If_stmt (BoolLiteral ''false'') [Print (StringLiteral ''"a"'')] None]))\<close>
    by simp
  show ?thesis
    using unique_label_distinct [of MIPSGenerator_init "''x''" "[]", THEN conjunct2,
        THEN conjunct2, THEN conjunct2, rule_format, OF w p] w
    by blast
qed

text \<open>
  C8. Where the printed expression has a fragment, the fragment of the print statement is
  the expression's fragment followed, for Bool, by a call of \<open>true_false_string\<close> and the
  print service with selector 4 and, for Int and String, by a move of the accumulator
  into the argument register and the print service with selector 1 for Int and 4 for
  String. Where the printed expression has no fragment, as for a variable, \<open>exitPrint\<close>
  raises AttributeError.
\<close>

theorem print_fragment:
  \<open>exitPrint_mips Bool_t (Some m) =
     Inr (m @ ''\<newline>jal    true_false_string\<newline>li     $v0 4\<newline>syscall\<newline>'')
   \<and> exitPrint_mips Int_t (Some m) =
     Inr (m @ ''\<newline>move   $a0 $t0\<newline>li     $v0 1\<newline>syscall\<newline>'')
   \<and> exitPrint_mips String_t (Some m) =
     Inr (m @ ''\<newline>move   $a0 $t0\<newline>li     $v0 4\<newline>syscall\<newline>'')
   \<and> exitPrint_mips t None = Inl AttributeError
   \<and> walk_mips_statement ty g (Print (Variable n)) = Inl AttributeError\<close>
  by (simp add: exitPrint_mips_def get_mips_def print_bool_def print_int_or_string_def
      str_int_1 str_int_4 text_lines_def newline_def exitVariable_mips_def)

theorem print_fragment_witness:
  "walk_mips_script (\<lambda>e. Int_t) (Some 1) MIPSGenerator_init
      (Script []
        (Body [VarDec ''x'' ''Int'' (Some (IntLiteral ''5''))] [Print (Variable ''x'')])) =
     Inl AttributeError
   \<and> walk_mips_statement (\<lambda>e. Int_t) MIPSGenerator_init (Print (IntLiteral ''5'')) =
     Inr (MIPSGenerator_init,
          Some ''li     $t0 5\<newline>move   $a0 $t0\<newline>li     $v0 1\<newline>syscall\<newline>'')"
  using print_fragment [of "''li     $t0 5''" Int_t "\<lambda>e. Int_t"
      "MIPSGenerator_init\<lparr>gen_current_scope := Some 1\<rparr>" "''x''"]
  by (simp add: exitIntLiteral_mips_def enterMain_mips_def MIPSGenerator_init_def)

text \<open>
  C9. The fragment of an addition or subtraction is the left fragment, a push of the
  accumulator, the right fragment, a pop into \<open>$s1\<close>, and \<open>add\<close> or \<open>sub\<close> into the
  accumulator. A multiplication, a division or a comparison gets no fragment:
  \<open>exitMulDiv\<close> and \<open>exitCompare\<close> are \<open>pass\<close>, so a statement that prints one raises
  AttributeError.
\<close>

theorem binary_operator_fragment:
  "exitAddSub_mips op (Some m0) (Some m1) =
     Inr (m0 @ ''\<newline>sw     $t0 0($sp) \<newline>addiu  $sp $sp -4 \<newline>'' @ m1
          @ ''\<newline>lw     $s1 4($sp) \<newline>'' @ (if op = ''+'' then ''add'' else ''sub'')
          @ ''    $t0 $s1 $t0 \<newline>addiu  $sp $sp 4\<newline>'')
   \<and> walk_mips_expr g (MulDiv op e0 e1) \<noteq> Inr (g', Some t)
   \<and> walk_mips_expr g (Compare op e0 e1) \<noteq> Inr (g', Some t)
   \<and> walk_mips_statement ty g (Print (MulDiv op (IntLiteral a) (IntLiteral b))) =
       Inl AttributeError
   \<and> walk_mips_statement ty g (Print (Compare op (IntLiteral a) (IntLiteral b))) =
       Inl AttributeError"
  by (auto simp: exitAddSub_mips_def get_mips_def add_sub_def text_lines_def newline_def
      exitMulDiv_mips_def exitCompare_mips_def exitPrint_mips_def split: sum.splits)

theorem binary_operator_fragment_witness:
  "walk_mips_expr MIPSGenerator_init (AddSub ''+'' (IntLiteral ''1'') (IntLiteral ''2'')) =
     Inr (MIPSGenerator_init,
          Some (''li     $t0 1\<newline>sw     $t0 0($sp) \<newline>addiu  $sp $sp -4 \<newline>''
            @ ''li     $t0 2\<newline>lw     $s1 4($sp) \<newline>add    $t0 $s1 $t0 \<newline>''
            @ ''addiu  $sp $sp 4\<newline>''))
   \<and> walk_mips_statement (\<lambda>e. Int_t) MIPSGenerator_init
        (Print (MulDiv ''*'' (IntLiteral ''2'') (IntLiteral ''3''))) = Inl AttributeError"
  using binary_operator_fragment [where op = "''+''" and ?m0.0 = "''li     $t0 1''"
        and ?m1.0 = "''li     $t0 2''"]
    binary_operator_fragment [where op = "''*''" and ty = "\<lambda>e. Int_t"
        and g = MIPSGenerator_init and a = "''2''" and b = "''3''"]
  by (simp add: exitIntLiteral_mips_def)

text \<open>
  C10. In a generator that satisfies the invariant of the pool, an occurrence of a string
  literal gets the label \<open>string_n\<close> of the increased counter, which is no key of the
  pool, and appends one entry for it. In the program that a walk of a fresh generator
  produces, the pool has one entry for each occurrence of a string literal in the tree,
  in the order of the walk and with pairwise distinct labels, and the data section has
  one line \<open>label: .asciiz text\<close> for each entry.
\<close>

theorem string_literal_pool:
  \<open>(pool_ok g \<longrightarrow>
      exitStringLiteral_mips g s =
        (g\<lparr>label_index := label_index g + 1,
           string_literals :=
             string_literals g @ [(''string_'' @ str_int (label_index g + 1), s)]\<rparr>,
         ''la     $t0 string_'' @ str_int (label_index g + 1))
      \<and> ''string_'' @ str_int (label_index g + 1) \<notin> fst ` set (string_literals g)
      \<and> pool_ok (fst (exitStringLiteral_mips g s)))
   \<and> (walk_mips_script ty ms MIPSGenerator_init tree = Inr (g', text) \<longrightarrow>
        map snd (string_literals g') = strings_script tree
        \<and> distinct (map fst (string_literals g'))
        \<and> (\<exists>m. text =
          ''.data\<newline>'' @
          ''\<newline>'' @
          ''true_string: .asciiz "true"\<newline>'' @
          ''false_string: .asciiz "false"\<newline>'' @
          ''    \<newline>'' @
          join ''\<newline>''
            (map (\<lambda>(label, string). label @ '': .asciiz '' @ string) (string_literals g')) @
          ''\<newline>'' @
          ''\<newline>'' @
          ''.text\<newline>'' @
          ''\<newline>'' @
          ''true_false_string:\<newline>'' @
          ''beq    $t0 $zero choose_false\<newline>'' @
          ''la     $a0 true_string\<newline>'' @
          ''j      end_true_false_string\<newline>'' @
          ''choose_false:\<newline>'' @
          ''la     $a0 false_string\<newline>'' @
          ''end_true_false_string:\<newline>'' @
          ''jr     $ra\<newline>'' @
          ''\<newline>'' @
          ''main: \<newline>'' @
          ''\<newline>'' @ m @
          ''\<newline>'' @
          ''\<newline>'' @
          ''halt:\<newline>'' @
          ''\<newline>'' @
          ''li $v0 10\<newline>'' @
          ''syscall\<newline>''))\<close>
proof (intro conjI impI)
  assume p: "pool_ok g"
  show "exitStringLiteral_mips g s =
        (g\<lparr>label_index := label_index g + 1,
           string_literals :=
             string_literals g @ [(''string_'' @ str_int (label_index g + 1), s)]\<rparr>,
         ''la     $t0 string_'' @ str_int (label_index g + 1))"
    using exitStringLiteral_mips_eq [OF p, of s] by simp
  show "''string_'' @ str_int (label_index g + 1) \<notin> fst ` set (string_literals g)"
    using pool_ok_fresh [OF p] .
  show "pool_ok (fst (exitStringLiteral_mips g s))"
    using steps_exitStringLiteral [OF p, of s] by (rule steps_pool_ok)
next
  assume w: "walk_mips_script ty ms MIPSGenerator_init tree = Inr (g', text)"
  have st: "steps MIPSGenerator_init g' (strings_script tree)"
    using walk_mips_script_steps [OF w pool_ok_init] .
  then show "map snd (string_literals g') = strings_script tree"
    by (simp add: steps_def MIPSGenerator_init_def)
  show "distinct (map fst (string_literals g'))"
    using steps_pool_ok [OF st] by (simp add: pool_ok_def)
  obtain fds vds b where tree: "tree = Script fds (Body vds b)"
    by (cases tree) (metis body.exhaust)
  from walk_mips_script_parts [OF w [unfolded tree] pool_ok_init]
  obtain m where "text = script_template (join newline (string_literal_lines g')) m" by blast
  then show \<open>\<exists>m. text =
          ''.data\<newline>'' @
          ''\<newline>'' @
          ''true_string: .asciiz "true"\<newline>'' @
          ''false_string: .asciiz "false"\<newline>'' @
          ''    \<newline>'' @
          join ''\<newline>''
            (map (\<lambda>(label, string). label @ '': .asciiz '' @ string) (string_literals g')) @
          ''\<newline>'' @
          ''\<newline>'' @
          ''.text\<newline>'' @
          ''\<newline>'' @
          ''true_false_string:\<newline>'' @
          ''beq    $t0 $zero choose_false\<newline>'' @
          ''la     $a0 true_string\<newline>'' @
          ''j      end_true_false_string\<newline>'' @
          ''choose_false:\<newline>'' @
          ''la     $a0 false_string\<newline>'' @
          ''end_true_false_string:\<newline>'' @
          ''jr     $ra\<newline>'' @
          ''\<newline>'' @
          ''main: \<newline>'' @
          ''\<newline>'' @ m @
          ''\<newline>'' @
          ''\<newline>'' @
          ''halt:\<newline>'' @
          ''\<newline>'' @
          ''li $v0 10\<newline>'' @
          ''syscall\<newline>''\<close>
    unfolding script_template_text string_literal_lines_def newline_def
    by (intro exI [of _ m]) simp
qed

theorem string_literal_pool_witness:
  \<open>walk_mips_script (\<lambda>e. String_t) (Some 1) MIPSGenerator_init
      (Script []
        (Body [] [Print (StringLiteral ''"a"''), Print (StringLiteral ''"a"'')])) =
     Inr (\<lparr>label_index = 1,
            string_literals = [(''string_0'', ''"a"''), (''string_1'', ''"a"'')],
            gen_current_scope = Some 1\<rparr>,
          ''.data\<newline>'' @
          ''\<newline>'' @
          ''true_string: .asciiz "true"\<newline>'' @
          ''false_string: .asciiz "false"\<newline>'' @
          ''    \<newline>'' @
          ''string_0: .asciiz "a"\<newline>'' @
          ''string_1: .asciiz "a"\<newline>'' @
          ''\<newline>'' @
          ''.text\<newline>'' @
          ''\<newline>'' @
          ''true_false_string:\<newline>'' @
          ''beq    $t0 $zero choose_false\<newline>'' @
          ''la     $a0 true_string\<newline>'' @
          ''j      end_true_false_string\<newline>'' @
          ''choose_false:\<newline>'' @
          ''la     $a0 false_string\<newline>'' @
          ''end_true_false_string:\<newline>'' @
          ''jr     $ra\<newline>'' @
          ''\<newline>'' @
          ''main: \<newline>'' @
          ''\<newline>'' @
          ''la     $t0 string_0\<newline>'' @
          ''move   $a0 $t0\<newline>'' @
          ''li     $v0 4\<newline>'' @
          ''syscall\<newline>'' @
          ''\<newline>'' @
          ''la     $t0 string_1\<newline>'' @
          ''move   $a0 $t0\<newline>'' @
          ''li     $v0 4\<newline>'' @
          ''syscall\<newline>'' @
          ''\<newline>'' @
          ''\<newline>'' @
          ''halt:\<newline>'' @
          ''\<newline>'' @
          ''li $v0 10\<newline>'' @
          ''syscall\<newline>'')
   \<and> exitStringLiteral_mips MIPSGenerator_init ''"a"'' =
       (\<lparr>label_index = 0, string_literals = [(''string_0'', ''"a"'')],
          gen_current_scope = None\<rparr>, ''la     $t0 string_0'')\<close>
proof -
  have w: \<open>walk_mips_script (\<lambda>e. String_t) (Some 1) MIPSGenerator_init
      (Script []
        (Body [] [Print (StringLiteral ''"a"''), Print (StringLiteral ''"a"'')])) =
     Inr (\<lparr>label_index = 1,
            string_literals = [(''string_0'', ''"a"''), (''string_1'', ''"a"'')],
            gen_current_scope = Some 1\<rparr>,
          ''.data\<newline>'' @
          ''\<newline>'' @
          ''true_string: .asciiz "true"\<newline>'' @
          ''false_string: .asciiz "false"\<newline>'' @
          ''    \<newline>'' @
          ''string_0: .asciiz "a"\<newline>'' @
          ''string_1: .asciiz "a"\<newline>'' @
          ''\<newline>'' @
          ''.text\<newline>'' @
          ''\<newline>'' @
          ''true_false_string:\<newline>'' @
          ''beq    $t0 $zero choose_false\<newline>'' @
          ''la     $a0 true_string\<newline>'' @
          ''j      end_true_false_string\<newline>'' @
          ''choose_false:\<newline>'' @
          ''la     $a0 false_string\<newline>'' @
          ''end_true_false_string:\<newline>'' @
          ''jr     $ra\<newline>'' @
          ''\<newline>'' @
          ''main: \<newline>'' @
          ''\<newline>'' @
          ''la     $t0 string_0\<newline>'' @
          ''move   $a0 $t0\<newline>'' @
          ''li     $v0 4\<newline>'' @
          ''syscall\<newline>'' @
          ''\<newline>'' @
          ''la     $t0 string_1\<newline>'' @
          ''move   $a0 $t0\<newline>'' @
          ''li     $v0 4\<newline>'' @
          ''syscall\<newline>'' @
          ''\<newline>'' @
          ''\<newline>'' @
          ''halt:\<newline>'' @
          ''\<newline>'' @
          ''li $v0 10\<newline>'' @
          ''syscall\<newline>'')\<close>
    by code_simp
  have s0: "str_int 0 = ''0''" by code_simp
  have \<open>exitStringLiteral_mips MIPSGenerator_init ''"a"'' =
       (\<lparr>label_index = 0, string_literals = [(''string_0'', ''"a"'')],
          gen_current_scope = None\<rparr>, ''la     $t0 string_0'')\<close>
    using string_literal_pool [of MIPSGenerator_init \<open>''"a"''\<close>, THEN conjunct1] pool_ok_init
    by (simp add: MIPSGenerator_init_def s0)
  with w show ?thesis by simp
qed

end
